theory Spec2Isabelle
  imports Complex_Main "HOL-Library.List_Lexorder" "HOL-Library.Char_ord"
begin

section \<open>Strings as JavaScript uses them\<close>

text \<open>
  A string is the list of the bytes of its UTF-8 encoding. The helpers below follow
  \<open>String.prototype.trim\<close>, \<open>length\<close>, \<open>split\<close>, \<open>Array.prototype.join\<close> and
  \<open>slice(-n)\<close>.
\<close>

text \<open>
  The code points \<open>trim\<close> strips, in UTF-8: tab, line feed, vertical tab, form feed,
  carriage return, space, U+00A0, U+1680, U+2000 to U+200A, U+2028, U+2029, U+202F, U+205F,
  U+3000 and U+FEFF.
\<close>

definition white_space :: "string list" where
  "white_space =
     [[CHR 0x09], [CHR 0x0A], [CHR 0x0B], [CHR 0x0C], [CHR 0x0D], [CHR 0x20],
      [CHR 0xC2, CHR 0xA0],
      [CHR 0xE1, CHR 0x9A, CHR 0x80],
      [CHR 0xE2, CHR 0x80, CHR 0x80], [CHR 0xE2, CHR 0x80, CHR 0x81],
      [CHR 0xE2, CHR 0x80, CHR 0x82], [CHR 0xE2, CHR 0x80, CHR 0x83],
      [CHR 0xE2, CHR 0x80, CHR 0x84], [CHR 0xE2, CHR 0x80, CHR 0x85],
      [CHR 0xE2, CHR 0x80, CHR 0x86], [CHR 0xE2, CHR 0x80, CHR 0x87],
      [CHR 0xE2, CHR 0x80, CHR 0x88], [CHR 0xE2, CHR 0x80, CHR 0x89],
      [CHR 0xE2, CHR 0x80, CHR 0x8A],
      [CHR 0xE2, CHR 0x80, CHR 0xA8], [CHR 0xE2, CHR 0x80, CHR 0xA9],
      [CHR 0xE2, CHR 0x80, CHR 0xAF],
      [CHR 0xE2, CHR 0x81, CHR 0x9F],
      [CHR 0xE3, CHR 0x80, CHR 0x80],
      [CHR 0xEF, CHR 0xBB, CHR 0xBF]]"

text \<open>\<open>space_at seqs s\<close>: the length of the sequence of \<open>seqs\<close> that starts \<open>s\<close>, 0 when none does.\<close>

definition space_at :: "string list \<Rightarrow> string \<Rightarrow> nat" where
  "space_at seqs s =
     (case find (\<lambda>p. take (length p) s = p) seqs of None \<Rightarrow> 0 | Some p \<Rightarrow> length p)"

fun drop_space :: "string list \<Rightarrow> nat \<Rightarrow> string \<Rightarrow> string" where
  "drop_space seqs k [] = []"
| "drop_space seqs (Suc k) (c # cs) = drop_space seqs k cs"
| "drop_space seqs 0 (c # cs) =
     (case space_at seqs (c # cs) of
        0 \<Rightarrow> c # cs
      | Suc n \<Rightarrow> drop_space seqs n cs)"

definition trim :: "string \<Rightarrow> string" where
  "trim s = rev (drop_space (map rev white_space) 0 (rev (drop_space white_space 0 s)))"

text \<open>
  \<open>String.length\<close> counts UTF-16 code units: one for each code point, two for a code
  point of four bytes.
\<close>

definition js_length :: "string \<Rightarrow> nat" where
  "js_length s =
     length (filter (\<lambda>c. \<not> (128 \<le> (of_char c :: nat) \<and> (of_char c :: nat) < 192)) s) +
     length (filter (\<lambda>c. 240 \<le> (of_char c :: nat)) s)"

fun split :: "char \<Rightarrow> string \<Rightarrow> string list" where
  "split sep [] = [[]]"
| "split sep (c # cs) =
     (if c = sep then [] # split sep cs
      else (case split sep cs of [] \<Rightarrow> [[c]] | x # xs \<Rightarrow> (c # x) # xs))"

fun join :: "string \<Rightarrow> string list \<Rightarrow> string" where
  "join sep [] = []"
| "join sep [x] = x"
| "join sep (x # y # zs) = x @ sep @ join sep (y # zs)"

text \<open>\<open>xs.slice(-n)\<close> for a positive \<open>n\<close>: the last \<open>n\<close> elements, all of them when there are fewer.\<close>

definition slice_last :: "nat \<Rightarrow> 'a list \<Rightarrow> 'a list" where
  "slice_last n xs = drop (length xs - n) xs"

text \<open>
  The mention pattern \<open>/<@!?\d+>/g\<close> of \<open>handleAIChat\<close>: \<open>mention_length s\<close> is the
  length of a mention that starts \<open>s\<close>; \<open>strip_mentions\<close> deletes every mention, left to right.
\<close>

definition isDigit :: "char \<Rightarrow> bool" where
  "isDigit c = (c \<in> set ''0123456789'')"

definition mention_length :: "string \<Rightarrow> nat option" where
  "mention_length s =
     (if take 2 s = ''<@'' then
        (let r = drop 2 s;
             bang = (if take 1 r = ''!'' then 1 else 0);
             r1 = drop bang r;
             ds = takeWhile isDigit r1;
             r2 = dropWhile isDigit r1
         in if ds \<noteq> [] \<and> take 1 r2 = ''>'' then Some (2 + bang + length ds + 1) else None)
      else None)"

fun strip_from :: "nat \<Rightarrow> string \<Rightarrow> string" where
  "strip_from k [] = []"
| "strip_from (Suc k) (c # cs) = strip_from k cs"
| "strip_from 0 (c # cs) =
     (case mention_length (c # cs) of
        Some n \<Rightarrow> strip_from (n - 1) cs
      | None \<Rightarrow> c # strip_from 0 cs)"

definition strip_mentions :: "string \<Rightarrow> string" where
  "strip_mentions s = strip_from 0 s"

section \<open>Data model\<close>

datatype error = DbError | ApiError | TypeError | SendError

datatype role = System | User | Assistant

text \<open>
  An entry of \<open>conversation_cache\<close>. The user entry carries \<open>messageId\<close> and
  \<open>timestamp\<close>; the assistant entry is pushed with \<open>role\<close> and \<open>content\<close> only.
\<close>

record entry =
  role :: role
  content :: string
  messageId :: "string option"
  timestamp :: "string option"

text \<open>A row of the \<open>ProcessedMessage\<close> table (\<open>messageId\<close> is its \<open>@id\<close>).\<close>

record ProcessedMessage =
  rowMessageId :: string
  processedAt :: string
  processingType :: string
  storedIn :: "string option"

text \<open>A row of the \<open>Event\<close> table.\<close>

record Event =
  eventId :: nat
  date :: string
  description :: string
  participants :: "string option"
  event_context :: "string option"
  createdAt :: string

text \<open>The metadata object of a record of the vector collection; an absent key is \<open>None\<close>.\<close>

record Metadata =
  source_message_id :: "string option"
  md_timestamp :: "string option"
  category :: "string option"
  processed_type :: "string option"
  source_messages :: "string option"
  last_updated :: "string option"
  enriched :: "bool option"
  message_count :: "nat option"
  created_at :: "string option"

definition no_metadata :: Metadata where
  "no_metadata = \<lparr>source_message_id = None, md_timestamp = None, category = None,
     processed_type = None, source_messages = None, last_updated = None, enriched = None,
     message_count = None, created_at = None\<rparr>"

record Item =
  itemId :: string
  document :: string
  embedding :: "real list"
  metadata :: Metadata

text \<open>
  The module state of \<open>vectorDB.js\<close>: \<open>handle\<close> says that \<open>collection\<close> is not null,
  \<open>items\<close> is the content of the collection, \<open>uuid_calls\<close> counts the calls of \<open>uuidv4\<close>.
\<close>

record vectorDB =
  handle :: bool
  items :: "Item list"
  uuid_calls :: nat

text \<open>The replies of the classification collaborator.\<close>

record importance =
  important :: bool
  reason :: string
  imp_category :: "string option"

record fact =
  fact_text :: string
  fact_category :: string
  confidence :: real

text \<open>
  The value of \<open>facts\<close> in a parsed extraction reply, as \<open>handleAIChat\<close> iterates it: a
  list whose element \<open>None\<close> is \<open>null\<close> (reading \<open>fact.category\<close> of it throws), or a
  truthy value that \<open>for..of\<close> cannot iterate. An element whose category is neither
  \<open>fact\<close> nor \<open>event\<close> is skipped, whatever else it holds. The text of a fact and
  the category of a judgement are strings: a store call handed any other value rejects,
  which is a call with \<open>event_create_ok\<close>, \<open>upsert_ok\<close> or \<open>embed\<close> failing.
\<close>

datatype extraction = FactsList "fact option list" | NotIterable

record chunk =
  narrative :: string
  chunk_metadata :: Metadata

record chat_message =
  msg_role :: role
  msg_content :: string

text \<open>The Discord message a turn is about.\<close>

record message =
  message_id :: string
  author_username :: string
  message_content :: string

text \<open>
  Everything outside the process: the replies of the collaborators (\<open>None\<close> is a rejected
  call or a reply that \<open>JSON.parse\<close> refuses), the faults of the two stores (\<open>False\<close>
  is a call that rejects, whether the store is unreachable or refuses the data), the
  channel (\<open>send_ok\<close> says that \<open>message.channel.send\<close> of a text is delivered), the
  clock and the id source. The importance reply is read as the code reads it: \<open>Some None\<close>
  is a reply that parses to \<open>null\<close> (\<open>JSON.parse\<close> of a \<open>null\<close> content), and of an
  object the truthiness of \<open>important\<close> and its \<open>category\<close> (\<open>None\<close> when absent or
  null). \<open>generate_reply\<close> stands for the completion calls of \<open>handleAIChat\<close> and
  the todo tool loop between them: \<open>Some botReply\<close> when they end with a reply,
  \<open>None\<close> when one of them throws.
\<close>

record world =
  ai_configured :: bool
  detect_reply :: "string \<Rightarrow> entry list \<Rightarrow> importance option option"
  extract_reply :: "string \<Rightarrow> entry list \<Rightarrow> extraction option"
  batch_reply :: "string \<Rightarrow> string option"
  reformulate_reply :: "string \<Rightarrow> entry list \<Rightarrow> string option"
  generate_reply :: "chat_message list \<Rightarrow> string option"
  embed :: "string \<Rightarrow> real list option"
  distance :: "real list \<Rightarrow> real list \<Rightarrow> real"
  init_ok :: bool
  query_ok :: bool
  get_ok :: bool
  update_ok :: bool
  add_ok :: bool
  upsert_ok :: "string \<Rightarrow> bool"
  find_ok :: "string \<Rightarrow> bool"
  event_create_ok :: bool
  event_find_ok :: bool
  send_ok :: "string \<Rightarrow> bool"
  now :: string
  days_ago :: "nat \<Rightarrow> string"
  uuidv4 :: "nat \<Rightarrow> string"
  DEDUP_SIMILARITY_THRESHOLD :: "real option"
  CONTEXT_WINDOW_SIZE :: "nat option"

text \<open>The process state: the cache of \<open>aiChat.js\<close>, the two tables, the vector store.\<close>

record state =
  conversation_cache :: "entry list"
  ledger :: "ProcessedMessage list"
  events :: "Event list"
  vstore :: vectorDB

definition initial_state :: state where
  "initial_state = \<lparr>conversation_cache = [], ledger = [], events = [],
     vstore = \<lparr>handle = False, items = [], uuid_calls = 0\<rparr>\<rparr>"

section \<open>config.js\<close>

text \<open>
  \<open>parseFloat(env) || 0.15\<close> and \<open>parseInt(env) || 10\<close>: an unset, unparsable or zero
  value gives the default. The window size is taken as a natural number.
\<close>

definition dedupThreshold :: "world \<Rightarrow> real" where
  "dedupThreshold w =
     (case DEDUP_SIMILARITY_THRESHOLD w of
        None \<Rightarrow> 0.15
      | Some t \<Rightarrow> if t = 0 then 0.15 else t)"

definition contextWindowSize :: "world \<Rightarrow> nat" where
  "contextWindowSize w =
     (case CONTEXT_WINDOW_SIZE w of
        None \<Rightarrow> 10
      | Some n \<Rightarrow> if n = 0 then 10 else n)"

section \<open>sqlDB.js\<close>

text \<open>
  Prisma's \<open>upsert\<close> on the table keyed by \<open>messageId\<close>: the row that matches \<open>where\<close>
  takes the \<open>update\<close> fields, and when there is none the \<open>create\<close> row is inserted
  (\<open>processedAt\<close> defaults to the clock).
\<close>

fun upsert :: "string \<Rightarrow> string \<Rightarrow> string option \<Rightarrow> string \<Rightarrow> ProcessedMessage list \<Rightarrow> ProcessedMessage list" where
  "upsert mid pt si t [] =
     [\<lparr>rowMessageId = mid, processedAt = t, processingType = pt, storedIn = si\<rparr>]"
| "upsert mid pt si t (r # rs) =
     (if rowMessageId r = mid then r\<lparr>processingType := pt, storedIn := si\<rparr> # rs
      else r # upsert mid pt si t rs)"

definition findUnique :: "string \<Rightarrow> ProcessedMessage list \<Rightarrow> ProcessedMessage option" where
  "findUnique mid tbl = find (\<lambda>r. rowMessageId r = mid) tbl"

definition markMessageProcessed ::
  "world \<Rightarrow> string \<Rightarrow> string \<Rightarrow> string option \<Rightarrow> ProcessedMessage list \<Rightarrow> error + ProcessedMessage list" where
  "markMessageProcessed w mid pt si tbl =
     (if upsert_ok w mid then Inr (upsert mid pt si (now w) tbl) else Inl DbError)"

text \<open>The \<open>catch\<close> of \<open>isMessageProcessed\<close> answers \<open>false\<close>.\<close>

definition isMessageProcessed :: "world \<Rightarrow> string \<Rightarrow> ProcessedMessage list \<Rightarrow> bool" where
  "isMessageProcessed w mid tbl =
     (if find_ok w mid then findUnique mid tbl \<noteq> None else False)"

definition next_event_id :: "Event list \<Rightarrow> nat" where
  "next_event_id tbl = Suc (foldr max (map eventId tbl) 0)"

definition addEvent ::
  "world \<Rightarrow> string \<Rightarrow> string \<Rightarrow> string option \<Rightarrow> string option \<Rightarrow> Event list \<Rightarrow> error + Event list" where
  "addEvent w d descr parts ctx tbl =
     (if event_create_ok w then
        Inr (tbl @ [\<lparr>eventId = next_event_id tbl, date = d, description = descr,
                     participants = parts, event_context = ctx, createdAt = now w\<rparr>])
      else Inl DbError)"

text \<open>Events dated at or after the cutoff, newest first; the \<open>catch\<close> answers the empty list.\<close>

definition getRecentEvents :: "world \<Rightarrow> nat \<Rightarrow> Event list \<Rightarrow> Event list" where
  "getRecentEvents w days tbl =
     (if event_find_ok w then
        rev (sort_key date (filter (\<lambda>e. days_ago w days \<le> date e) tbl))
      else [])"

section \<open>vectorDB.js\<close>

text \<open>\<open>initializeVectorDB\<close> keeps a collection it already has; its \<open>catch\<close> answers null.\<close>

definition initializeVectorDB :: "world \<Rightarrow> vectorDB \<Rightarrow> vectorDB" where
  "initializeVectorDB w v = (if handle v then v else v\<lparr>handle := init_ok w\<rparr>)"

definition generateEmbedding :: "world \<Rightarrow> string \<Rightarrow> error + real list" where
  "generateEmbedding w txt = (case embed w txt of None \<Rightarrow> Inl ApiError | Some e \<Rightarrow> Inr e)"

text \<open>
  The collection's calls. \<open>collection_query\<close> answers the \<open>n\<close> records nearest to the
  query embedding, nearest first, each with its distance; \<open>collection_get\<close> reads the
  record of an id; \<open>collection_update\<close> replaces the metadata of the record of an id and
  touches nothing else; \<open>collection_add\<close> appends a record, and ignores an id the
  collection already has.
\<close>

definition collection_query :: "world \<Rightarrow> real list \<Rightarrow> nat \<Rightarrow> Item list \<Rightarrow> error + (Item \<times> real) list" where
  "collection_query w q n xs =
     (if query_ok w then
        Inr (take n (sort_key snd (map (\<lambda>x. (x, distance w q (embedding x))) xs)))
      else Inl DbError)"

definition collection_get :: "world \<Rightarrow> string \<Rightarrow> Item list \<Rightarrow> error + Item option" where
  "collection_get w fid xs =
     (if get_ok w then Inr (find (\<lambda>x. itemId x = fid) xs) else Inl DbError)"

definition collection_update :: "world \<Rightarrow> string \<Rightarrow> Metadata \<Rightarrow> Item list \<Rightarrow> error + Item list" where
  "collection_update w fid md xs =
     (if update_ok w then
        Inr (map (\<lambda>x. if itemId x = fid then x\<lparr>metadata := md\<rparr> else x) xs)
      else Inl DbError)"

definition collection_add :: "world \<Rightarrow> Item \<Rightarrow> Item list \<Rightarrow> error + Item list" where
  "collection_add w x xs =
     (if add_ok w then
        Inr (if itemId x \<in> set (map itemId xs) then xs else xs @ [x])
      else Inl DbError)"

text \<open>A search result: narrative, metadata, distance.\<close>

definition searchMemories ::
  "world \<Rightarrow> string \<Rightarrow> nat \<Rightarrow> vectorDB \<Rightarrow> vectorDB \<times> (string \<times> Metadata \<times> real) list" where
  "searchMemories w q limit v =
     (let v1 = initializeVectorDB w v in
      if \<not> handle v1 then (v1, [])
      else (case generateEmbedding w q of
              Inl e \<Rightarrow> (v1, [])
            | Inr queryEmbedding \<Rightarrow>
                (case collection_query w queryEmbedding limit (items v1) of
                   Inl e \<Rightarrow> (v1, [])
                 | Inr results \<Rightarrow>
                     (v1, map (\<lambda>(x, d). (document x, metadata x, d)) results))))"

text \<open>\<open>IsDuplicate existingId existingText similarity\<close>.\<close>

datatype duplicate = NotDuplicate | IsDuplicate string string real

definition checkDuplicate :: "world \<Rightarrow> string \<Rightarrow> real \<Rightarrow> vectorDB \<Rightarrow> vectorDB \<times> duplicate" where
  "checkDuplicate w factText threshold v =
     (let v1 = initializeVectorDB w v in
      if \<not> handle v1 then (v1, NotDuplicate)
      else (case generateEmbedding w factText of
              Inl e \<Rightarrow> (v1, NotDuplicate)
            | Inr e \<Rightarrow>
                (case collection_query w e 1 (items v1) of
                   Inl err \<Rightarrow> (v1, NotDuplicate)
                 | Inr [] \<Rightarrow> (v1, NotDuplicate)
                 | Inr ((x, d) # rest) \<Rightarrow>
                     if d < threshold then (v1, IsDuplicate (itemId x) (document x) d)
                     else (v1, NotDuplicate))))"

text \<open>
  The metadata \<open>enrichExistingFact\<close> writes: the existing keys, with \<open>last_updated\<close>,
  \<open>source_messages\<close> (the old value, a comma and the new id when the old value is truthy,
  the new id alone otherwise) and \<open>enriched\<close>.
\<close>

definition enrich_metadata :: "Metadata \<Rightarrow> string \<Rightarrow> string \<Rightarrow> Metadata" where
  "enrich_metadata existingMetadata newMessageId newTimestamp =
     existingMetadata\<lparr>
       last_updated := Some newTimestamp,
       source_messages :=
         Some (case source_messages existingMetadata of
                 None \<Rightarrow> newMessageId
               | Some old \<Rightarrow> if old = [] then newMessageId else old @ '','' @ newMessageId),
       enriched := Some True\<rparr>"

definition enrichExistingFact ::
  "world \<Rightarrow> string \<Rightarrow> string \<Rightarrow> string \<Rightarrow> string \<Rightarrow> vectorDB \<Rightarrow> vectorDB" where
  "enrichExistingFact w factId newText newMessageId newTimestamp v =
     (if \<not> handle v then v
      else (case collection_get w factId (items v) of
              Inl e \<Rightarrow> v
            | Inr existing \<Rightarrow>
                (let existingMetadata =
                       (case existing of None \<Rightarrow> no_metadata | Some x \<Rightarrow> metadata x)
                 in case collection_update w factId
                           (enrich_metadata existingMetadata newMessageId newTimestamp) (items v) of
                      Inl e \<Rightarrow> v
                    | Inr xs \<Rightarrow> v\<lparr>items := xs\<rparr>)))"

datatype stored = StoredNew string | StoredEnriched string | StoredFailed

definition storeFactSafely ::
  "world \<Rightarrow> string \<Rightarrow> string \<Rightarrow> string \<Rightarrow> string \<Rightarrow> vectorDB \<Rightarrow> vectorDB \<times> stored" where
  "storeFactSafely w factText msgId ts cat v =
     (let v1 = initializeVectorDB w v in
      if \<not> handle v1 then (v1, StoredFailed)
      else (case checkDuplicate w factText (dedupThreshold w) v1 of
              (v2, IsDuplicate existingId existingText similarity) \<Rightarrow>
                (enrichExistingFact w existingId factText msgId ts v2, StoredEnriched existingId)
            | (v2, NotDuplicate) \<Rightarrow>
                (case generateEmbedding w factText of
                   Inl e \<Rightarrow> (v2, StoredFailed)
                 | Inr emb \<Rightarrow>
                     (let newId = uuidv4 w (uuid_calls v2);
                          v3 = v2\<lparr>uuid_calls := Suc (uuid_calls v2)\<rparr>
                      in case collection_add w
                                \<lparr>itemId = newId, document = factText, embedding = emb,
                                 metadata = no_metadata\<lparr>
                                   source_message_id := Some msgId,
                                   md_timestamp := Some ts,
                                   category := Some cat,
                                   processed_type := Some ''immediate'',
                                   source_messages := Some msgId\<rparr>\<rparr>
                                (items v3) of
                           Inl e \<Rightarrow> (v3, StoredFailed)
                         | Inr xs \<Rightarrow> (v3\<lparr>items := xs\<rparr>, StoredNew newId)))))"

definition storeMemory :: "world \<Rightarrow> string \<Rightarrow> Metadata \<Rightarrow> vectorDB \<Rightarrow> vectorDB" where
  "storeMemory w narr md v =
     (let v1 = initializeVectorDB w v in
      if \<not> handle v1 then v1
      else (case generateEmbedding w narr of
              Inl e \<Rightarrow> v1
            | Inr emb \<Rightarrow>
                (let newId = uuidv4 w (uuid_calls v1);
                     v2 = v1\<lparr>uuid_calls := Suc (uuid_calls v1)\<rparr>
                 in case collection_add w
                           \<lparr>itemId = newId, document = narr, embedding = emb,
                            metadata = md\<lparr>md_timestamp := Some (now w),
                                          processed_type := Some ''batch''\<rparr>\<rparr>
                           (items v2) of
                      Inl e \<Rightarrow> v2
                    | Inr xs \<Rightarrow> v2\<lparr>items := xs\<rparr>)))"

section \<open>memoryProcessor.js\<close>

text \<open>The parsed reply is returned as it is, \<open>None\<close> when it is \<open>null\<close>; the \<open>catch\<close> answers not important.\<close>

definition detectImportance :: "world \<Rightarrow> string \<Rightarrow> entry list \<Rightarrow> importance option" where
  "detectImportance w msg conversationContext =
     (case detect_reply w msg (slice_last (contextWindowSize w) conversationContext) of
        Some r \<Rightarrow> r
      | None \<Rightarrow> Some \<lparr>important = False, reason = ''error'', imp_category = Some ''none''\<rparr>)"

text \<open>\<open>result.facts || []\<close> is returned as it is; the \<open>catch\<close> answers the empty list.\<close>

definition extractWithContext :: "world \<Rightarrow> string \<Rightarrow> entry list \<Rightarrow> string \<Rightarrow> extraction" where
  "extractWithContext w currentMessage conversationCache msgId =
     (case extract_reply w currentMessage (slice_last (contextWindowSize w) conversationCache) of
        Some facts \<Rightarrow> facts
      | None \<Rightarrow> FactsList [])"

definition conversationText :: "entry list \<Rightarrow> string" where
  "conversationText messages = join [CHR 0x0A] (map content messages)"

definition processConversations :: "world \<Rightarrow> entry list \<Rightarrow> chunk list" where
  "processConversations w messages =
     (if messages = [] then []
      else (case batch_reply w (conversationText messages) of
              None \<Rightarrow> []
            | Some reply \<Rightarrow>
                map (\<lambda>c. \<lparr>narrative = c,
                           chunk_metadata = no_metadata\<lparr>message_count := Some (length messages),
                                                         created_at := Some (now w)\<rparr>\<rparr>)
                  (filter (\<lambda>c. js_length c > 20) (map trim (split CHR ''|'' (trim reply))))))"

definition reformulateQuery :: "world \<Rightarrow> string \<Rightarrow> entry list \<Rightarrow> string" where
  "reformulateQuery w q conversationContext =
     (let recentContext = slice_last 3 conversationContext in
      if recentContext = [] then q
      else (case reformulate_reply w q recentContext of
              Some r \<Rightarrow> trim r
            | None \<Rightarrow> q))"

section \<open>aiChat.js\<close>

definition userMessage :: "world \<Rightarrow> message \<Rightarrow> string \<Rightarrow> entry" where
  "userMessage w m input =
     \<lparr>role = User, content = author_username m @ '': '' @ input,
      messageId = Some (message_id m), timestamp = Some (now w)\<rparr>"

definition assistantMessage :: "string \<Rightarrow> entry" where
  "assistantMessage botReply =
     \<lparr>role = Assistant, content = botReply, messageId = None, timestamp = None\<rparr>"

text \<open>
  The loop over the extracted facts. \<open>storeFactSafely\<close> never throws; reading the
  category of a \<open>null\<close> element throws, and \<open>addEvent\<close> re-throws: either ends the
  loop with what was written so far.
\<close>

fun store_facts :: "world \<Rightarrow> message \<Rightarrow> string \<Rightarrow> fact option list \<Rightarrow> state \<Rightarrow> state \<times> error option" where
  "store_facts w m input [] s = (s, None)"
| "store_facts w m input (None # fs) s = (s, Some TypeError)"
| "store_facts w m input (Some f # fs) s =
     (if fact_category f = ''fact'' then
        store_facts w m input fs
          (s\<lparr>vstore := fst (storeFactSafely w (fact_text f) (message_id m) (now w)
                               (fact_category f) (vstore s))\<rparr>)
      else if fact_category f = ''event'' then
        (case addEvent w (now w) (fact_text f) (Some (author_username m)) (Some input) (events s) of
           Inl e \<Rightarrow> (s, Some e)
         | Inr tbl \<Rightarrow> store_facts w m input fs (s\<lparr>events := tbl\<rparr>))
      else store_facts w m input fs s)"

text \<open>
  The block \<open>=== IMMEDIATE STORAGE ===\<close> of \<open>handleAIChat\<close>; \<open>Some e\<close> is a throw.
  Reading \<open>importance.important\<close> of a \<open>null\<close> judgement throws, and so does
  \<open>for..of\<close> over facts that cannot be iterated.
\<close>

definition immediate_storage :: "world \<Rightarrow> message \<Rightarrow> string \<Rightarrow> state \<Rightarrow> state \<times> error option" where
  "immediate_storage w m input s =
     (case detectImportance w input (conversation_cache s) of
        None \<Rightarrow> (s, Some TypeError)
      | Some imp \<Rightarrow>
          if important imp \<and> imp_category imp \<noteq> Some ''todo'' then
            (case extractWithContext w input (conversation_cache s) (message_id m) of
               NotIterable \<Rightarrow> (s, Some TypeError)
             | FactsList facts \<Rightarrow>
                 (case store_facts w m input facts s of
                    (s1, Some e) \<Rightarrow> (s1, Some e)
                  | (s1, None) \<Rightarrow>
                      (case markMessageProcessed w (message_id m) ''immediate''
                              (imp_category imp) (ledger s1) of
                         Inl e \<Rightarrow> (s1, Some e)
                       | Inr tbl \<Rightarrow> (s1\<lparr>ledger := tbl\<rparr>, None))))
          else (s, None))"

definition system_prompt :: string where
  "system_prompt = ''You are a helpful and friendly AI assistant with access to todo management tools.''"

definition build_messages ::
  "(string \<times> Metadata \<times> real) list \<Rightarrow> Event list \<Rightarrow> entry list \<Rightarrow> chat_message list" where
  "build_messages relevantMemories recentEvents cache =
     [\<lparr>msg_role = System, msg_content = system_prompt\<rparr>] @
     (if relevantMemories \<noteq> [] then
        [\<lparr>msg_role = System,
          msg_content = ''Relevant memories: '' @ join '' | '' (map fst relevantMemories)\<rparr>]
      else []) @
     (if recentEvents \<noteq> [] then
        [\<lparr>msg_role = System,
          msg_content = ''Recent events (last 7 days): '' @
            join ''; '' (map (\<lambda>e. date e @ '': '' @ description e) recentEvents)\<rparr>]
      else []) @
     map (\<lambda>e. \<lparr>msg_role = role e, msg_content = content e\<rparr>) (slice_last 10 cache)"

text \<open>
  Which \<open>message.channel.send\<close> ends the turn: the two early returns, the model's reply,
  or the apology of the \<open>catch\<close>.
\<close>

datatype reply = NotConfigured | AskInput | Reply string | Apology


definition turn_input :: "message \<Rightarrow> string" where
  "turn_input m = trim (strip_mentions (message_content m))"

text \<open>The blocks \<open>=== CONTEXT RETRIEVAL ===\<close> and \<open>=== BUILD CONTEXT ===\<close>; none of their calls throws.\<close>

definition context_retrieval :: "world \<Rightarrow> string \<Rightarrow> state \<Rightarrow> state \<times> chat_message list" where
  "context_retrieval w input s =
     (let searchQuery = reformulateQuery w input (conversation_cache s);
          found = searchMemories w searchQuery 3 (vstore s);
          recentEvents = getRecentEvents w 7 (events s);
          s' = s\<lparr>vstore := fst found\<rparr>
      in (s', build_messages (snd found) recentEvents (conversation_cache s')))"

text \<open>
  \<open>handleAIChat\<close>: the state after the turn and the \<open>send\<close> that ends it. The
  \<open>catch\<close> keeps what the \<open>try\<close> block had written before the throw.
\<close>

definition handleAIChat :: "world \<Rightarrow> message \<Rightarrow> state \<Rightarrow> state \<times> reply" where
  "handleAIChat w m s =
     (if \<not> ai_configured w then (s, NotConfigured)
      else (let input = turn_input m in
        if input = [] then (s, AskInput)
        else (let s0 = s\<lparr>conversation_cache := conversation_cache s @ [userMessage w m input]\<rparr> in
          case immediate_storage w m input s0 of
            (s1, Some e) \<Rightarrow> (s1, Apology)
          | (s1, None) \<Rightarrow>
              (case context_retrieval w input s1 of
                 (s2, messages) \<Rightarrow>
                   (case generate_reply w messages of
                      None \<Rightarrow> (s2, Apology)
                    | Some botReply \<Rightarrow>
                        (let c = conversation_cache s2 @ [assistantMessage botReply]
                         in (s2\<lparr>conversation_cache :=
                                   (if length c > 50 then slice_last 40 c else c)\<rparr>,
                             Reply botReply)))))))"


definition getConversationCache :: "state \<Rightarrow> entry list" where
  "getConversationCache s = conversation_cache s"

definition clearConversationCache :: "state \<Rightarrow> state" where
  "clearConversationCache s = s\<lparr>conversation_cache := []\<rparr>"

section \<open>scheduler.js\<close>

text \<open>\<open>msg.messageId && !(await isMessageProcessed(msg.messageId))\<close>: an absent or empty id is falsy.\<close>

definition unprocessedMessages :: "world \<Rightarrow> ProcessedMessage list \<Rightarrow> entry list \<Rightarrow> entry list" where
  "unprocessedMessages w tbl cache =
     filter (\<lambda>msg. case messageId msg of
                     None \<Rightarrow> False
                   | Some mid \<Rightarrow> mid \<noteq> [] \<and> \<not> isMessageProcessed w mid tbl) cache"

fun store_chunks :: "world \<Rightarrow> chunk list \<Rightarrow> vectorDB \<Rightarrow> vectorDB" where
  "store_chunks w [] v = v"
| "store_chunks w (c # cs) v = store_chunks w cs (storeMemory w (narrative c) (chunk_metadata c) v)"

text \<open>The marking loop; \<open>markMessageProcessed\<close> re-throws, which ends the run with the rows written so far.\<close>

fun mark_batch :: "world \<Rightarrow> entry list \<Rightarrow> ProcessedMessage list \<Rightarrow> ProcessedMessage list \<times> error option" where
  "mark_batch w [] tbl = (tbl, None)"
| "mark_batch w (msg # msgs) tbl =
     (case messageId msg of
        None \<Rightarrow> mark_batch w msgs tbl
      | Some mid \<Rightarrow>
          if mid = [] then mark_batch w msgs tbl
          else (case markMessageProcessed w mid ''batch'' (Some ''consolidated'') tbl of
                  Inl e \<Rightarrow> (tbl, Some e)
                | Inr tbl' \<Rightarrow> mark_batch w msgs tbl'))"

text \<open>
  How a run of the daily job ends: the early return on nothing to consolidate, the end of
  the \<open>try\<close> block, or its \<open>catch\<close>.
\<close>

datatype run = NothingToDo | Completed | Aborted error

definition consolidation :: "world \<Rightarrow> state \<Rightarrow> state \<times> run" where
  "consolidation w s =
     (let conversationCache = getConversationCache s;
          unprocessed = unprocessedMessages w (ledger s) conversationCache
      in if unprocessed = [] then (s, NothingToDo)
         else (let chunks = processConversations w unprocessed in
           if chunks \<noteq> [] then
             (let s1 = s\<lparr>vstore := store_chunks w chunks (vstore s)\<rparr> in
              case mark_batch w unprocessed (ledger s1) of
                (tbl, Some e) \<Rightarrow> (s1\<lparr>ledger := tbl\<rparr>, Aborted e)
              | (tbl, None) \<Rightarrow> (clearConversationCache (s1\<lparr>ledger := tbl\<rparr>), Completed))
           else (clearConversationCache s, Completed)))"

text \<open>
  The states the process can be in: turns and nightly runs, one after the other in any
  order, each in a world of its own.
\<close>

inductive reachable :: "state \<Rightarrow> bool" where
  start: "reachable initial_state"
| turn: "reachable s \<Longrightarrow> reachable (fst (handleAIChat w m s))"
| nightly: "reachable s \<Longrightarrow> reachable (fst (consolidation w s))"

section \<open>Concrete worlds and messages\<close>

definition l1_distance :: "real list \<Rightarrow> real list \<Rightarrow> real" where
  "l1_distance a b = sum_list (map (\<lambda>(x, y). \<bar>x - y\<bar>) (zip a b))"

definition pizza_embed :: "string \<Rightarrow> real list option" where
  "pizza_embed t =
     (if t = ''likes pizza'' then Some [0]
      else if t = ''really likes pizza a lot'' then Some [0.08]
      else if t = ''likes pasta'' then Some [0.15]
      else Some [1])"

text \<open>A world where every call succeeds, nothing is judged important and the model answers \<open>ok\<close>.\<close>

definition quiet_world :: world where
  "quiet_world =
     \<lparr>ai_configured = True,
      detect_reply = (\<lambda>t c. Some (Some \<lparr>important = False, reason = ''chat'', imp_category = Some ''none''\<rparr>)),
      extract_reply = (\<lambda>t c. Some (FactsList [])),
      batch_reply = (\<lambda>t. Some ''ok''),
      reformulate_reply = (\<lambda>q c. Some q),
      generate_reply = (\<lambda>ms. Some ''ok''),
      embed = pizza_embed,
      distance = l1_distance,
      init_ok = True, query_ok = True, get_ok = True, update_ok = True, add_ok = True,
      upsert_ok = (\<lambda>mid. True), find_ok = (\<lambda>mid. True),
      event_create_ok = True, event_find_ok = True,
      send_ok = (\<lambda>t. True),
      now = ''2024-05-01T10:00:00.000Z'',
      days_ago = (\<lambda>n. ''2024-04-24T10:00:00.000Z''),
      uuidv4 = (\<lambda>n. ''uuid-'' @ replicate n (CHR ''x'')),
      DEDUP_SIMILARITY_THRESHOLD = None,
      CONTEXT_WINDOW_SIZE = None\<rparr>"

definition msg1 :: message where
  "msg1 = \<lparr>message_id = ''1001'', author_username = ''ann'', message_content = ''<@42> I like pizza''\<rparr>"

definition msg2 :: message where
  "msg2 = \<lparr>message_id = ''1002'', author_username = ''ann'', message_content = ''<@!42> dentist on friday''\<rparr>"

text \<open>A world that judges every message an important fact and extracts \<open>likes pizza\<close> from it.\<close>

definition fact_world :: world where
  "fact_world = quiet_world\<lparr>
     detect_reply := (\<lambda>t c. Some (Some \<lparr>important = True, reason = ''preference'', imp_category = Some ''fact''\<rparr>)),
     extract_reply := (\<lambda>t c. Some (FactsList
       [Some \<lparr>fact_text = ''likes pizza'', fact_category = ''fact'', confidence = 0.9\<rparr>]))\<rparr>"


definition after_pizza_turn :: state where
  "after_pizza_turn = fst (handleAIChat fact_world msg1 initial_state)"

definition after_quiet_turn :: state where
  "after_quiet_turn = fst (handleAIChat quiet_world msg1 initial_state)"

definition after_two_turns :: state where
  "after_two_turns = fst (handleAIChat quiet_world msg2 after_pizza_turn)"

text \<open>A world whose bulk extraction answers one chunk longer than 20 characters and one shorter.\<close>

definition batch_world :: world where
  "batch_world = quiet_world\<lparr>batch_reply := (\<lambda>t. Some ''ann likes pizza very much | ok'')\<rparr>"




definition reply_outage_world :: world where
  "reply_outage_world = quiet_world\<lparr>generate_reply := (\<lambda>ms. None)\<rparr>"

text \<open>A sequence of turns, and the state after 25 answered turns from the start: 50 cache entries.\<close>

definition turns :: "world \<Rightarrow> message list \<Rightarrow> state \<Rightarrow> state" where
  "turns w ms s = foldl (\<lambda>s m. fst (handleAIChat w m s)) s ms"

definition numbered_messages :: "nat \<Rightarrow> message list" where
  "numbered_messages n =
     map (\<lambda>i. \<lparr>message_id = ''20'' @ replicate i (CHR ''0''), author_username = ''ann'',
               message_content = ''hello''\<rparr>) [0..<n]"

definition after_25_turns :: state where
  "after_25_turns = turns quiet_world (numbered_messages 25) initial_state"

text \<open>
  Worlds whose importance reply is \<open>null\<close> or whose extraction reply is not a list of
  facts, and a world whose channel rejects every send.
\<close>

definition null_judgement_world :: world where
  "null_judgement_world = quiet_world\<lparr>detect_reply := (\<lambda>t c. Some None)\<rparr>"

definition null_fact_world :: world where
  "null_fact_world = fact_world\<lparr>extract_reply := (\<lambda>t c. Some (FactsList [None]))\<rparr>"



text \<open>A message that is a mention followed by a no-break space only, and a world whose ledger lookups fail.\<close>

definition blank_message :: message where
  "blank_message = \<lparr>message_id = ''1003'', author_username = ''ann'',
     message_content = ''<@42> '' @ [CHR 0xC2, CHR 0xA0]\<rparr>"

definition lookup_outage_world :: world where
  "lookup_outage_world = batch_world\<lparr>find_ok := (\<lambda>mid. False)\<rparr>"

section \<open>The ledger\<close>

lemma upsert_keys:
  "set (map rowMessageId (upsert mid pt si t tbl)) = insert mid (set (map rowMessageId tbl))"
  by (induction tbl) auto

lemma upsert_distinct:
  "distinct (map rowMessageId tbl) \<Longrightarrow> distinct (map rowMessageId (upsert mid pt si t tbl))"
proof (induction tbl)
  case Nil
  then show ?case by simp
next
  case (Cons r rs)
  have "rowMessageId r \<noteq> mid \<Longrightarrow> rowMessageId r \<notin> set (map rowMessageId (upsert mid pt si t rs))"
    using Cons.prems by (simp add: upsert_keys del: set_map)
  with Cons show ?case by auto
qed

lemma findUnique_upsert_same:
  "findUnique mid (upsert mid pt si t tbl) =
     Some (case findUnique mid tbl of
             None \<Rightarrow> \<lparr>rowMessageId = mid, processedAt = t, processingType = pt, storedIn = si\<rparr>
           | Some r \<Rightarrow> r\<lparr>processingType := pt, storedIn := si\<rparr>)"
  by (induction tbl) (auto simp: findUnique_def)

lemma findUnique_upsert_other:
  "mid' \<noteq> mid \<Longrightarrow> findUnique mid' (upsert mid pt si t tbl) = findUnique mid' tbl"
  by (induction tbl) (auto simp: findUnique_def)

lemma upsert_length:
  "length (upsert mid pt si t tbl) = (if findUnique mid tbl = None then Suc (length tbl) else length tbl)"
  by (induction tbl) (auto simp: findUnique_def)

lemma count_le_one_if_distinct:
  "distinct (map rowMessageId tbl) \<Longrightarrow> length (filter (\<lambda>r. rowMessageId r = mid) tbl) \<le> 1"
proof (induction tbl)
  case Nil
  then show ?case by simp
next
  case (Cons r rs)
  show ?case
  proof (cases "rowMessageId r = mid")
    case True
    with Cons.prems have "mid \<notin> rowMessageId ` set rs" by auto
    then have "filter (\<lambda>r. rowMessageId r = mid) rs = []"
      by (auto simp: filter_empty_conv)
    with True show ?thesis by simp
  next
    case False
    with Cons show ?thesis by simp
  qed
qed

lemma markMessageProcessed_distinct:
  "markMessageProcessed w mid pt si tbl = Inr tbl' \<Longrightarrow> distinct (map rowMessageId tbl)
     \<Longrightarrow> distinct (map rowMessageId tbl')"
  by (auto simp: markMessageProcessed_def upsert_distinct split: if_splits)

lemma store_facts_ledger: "ledger (fst (store_facts w m input fs s)) = ledger s"
  by (induction w m input fs s rule: store_facts.induct) (auto split: sum.splits)

lemma immediate_storage_distinct:
  "distinct (map rowMessageId (ledger s))
     \<Longrightarrow> distinct (map rowMessageId (ledger (fst (immediate_storage w m input s))))"
proof -
  assume d: "distinct (map rowMessageId (ledger s))"
  have l: "\<And>fs s1 e. store_facts w m input fs s = (s1, e) \<Longrightarrow> ledger s1 = ledger s"
    using store_facts_ledger by (metis fst_conv)
  show ?thesis
    using d
    by (auto simp: immediate_storage_def Let_def dest!: l markMessageProcessed_distinct
        split: prod.splits option.splits sum.splits extraction.splits if_splits)
qed

lemma context_retrieval_ledger: "ledger (fst (context_retrieval w input s)) = ledger s"
  by (simp add: context_retrieval_def Let_def)

lemma handleAIChat_ledger:
  "ledger (fst (handleAIChat w m s)) = ledger s \<or>
   ledger (fst (handleAIChat w m s)) =
     ledger (fst (immediate_storage w m (turn_input m)
       (s\<lparr>conversation_cache := conversation_cache s @ [userMessage w m (turn_input m)]\<rparr>)))"
proof -
  have c: "\<And>s1 s2 ms. context_retrieval w (turn_input m) s1 = (s2, ms) \<Longrightarrow> ledger s2 = ledger s1"
    using context_retrieval_ledger by (metis fst_conv)
  show ?thesis
    by (auto simp: handleAIChat_def Let_def dest!: c split: prod.splits option.splits)
qed

lemma handleAIChat_distinct:
  "distinct (map rowMessageId (ledger s))
     \<Longrightarrow> distinct (map rowMessageId (ledger (fst (handleAIChat w m s))))"
  using handleAIChat_ledger [of w m s] immediate_storage_distinct
  by (metis (no_types, lifting) state.select_convs(2) state.surjective state.update_convs(1))

lemma mark_batch_distinct:
  "distinct (map rowMessageId tbl) \<Longrightarrow> distinct (map rowMessageId (fst (mark_batch w msgs tbl)))"
  by (induction msgs arbitrary: tbl)
     (auto split: option.splits sum.splits dest: markMessageProcessed_distinct)

lemma consolidation_distinct:
  "distinct (map rowMessageId (ledger s))
     \<Longrightarrow> distinct (map rowMessageId (ledger (fst (consolidation w s))))"
proof -
  assume d: "distinct (map rowMessageId (ledger s))"
  have m: "\<And>msgs tbl e. mark_batch w msgs (ledger s) = (tbl, e) \<Longrightarrow> distinct (map rowMessageId tbl)"
    using mark_batch_distinct [OF d] by (metis fst_conv)
  show ?thesis
    using d
    by (auto simp: consolidation_def Let_def clearConversationCache_def getConversationCache_def
        dest!: m split: prod.splits option.splits)
qed

lemma reachable_distinct: "reachable s \<Longrightarrow> distinct (map rowMessageId (ledger s))"
  by (induction rule: reachable.induct)
     (simp_all add: initial_state_def handleAIChat_distinct consolidation_distinct)


lemma findUnique_count:
  "findUnique mid tbl = Some r \<Longrightarrow> rowMessageId r = mid \<and> r \<in> set tbl"
  by (auto simp: findUnique_def find_Some_iff)

text \<open>
  Claim C8. In every state the process can reach, by any sequence of turns and nightly
  runs in any worlds, the ledger holds at most one row for a message id; and a write for
  an id that already has a row succeeds when the store accepts it, adds no row, and
  leaves that row with the new \<open>processingType\<close> and \<open>storedIn\<close>.
\<close>

theorem ledger_at_most_one_record:
  "reachable s \<Longrightarrow>
     length (filter (\<lambda>r. rowMessageId r = mid) (ledger s)) \<le> 1 \<and>
     (findUnique mid (ledger s) = Some r \<and> upsert_ok w mid \<longrightarrow>
        (\<exists>tbl. markMessageProcessed w mid pt si (ledger s) = Inr tbl \<and>
               length tbl = length (ledger s) \<and>
               findUnique mid tbl = Some (r\<lparr>processingType := pt, storedIn := si\<rparr>) \<and>
               length (filter (\<lambda>r. rowMessageId r = mid) tbl) \<le> 1))"
proof -
  assume r: "reachable s"
  then have d: "distinct (map rowMessageId (ledger s))"
    by (rule reachable_distinct)
  have one: "length (filter (\<lambda>r. rowMessageId r = mid) (ledger s)) \<le> 1"
    using d by (rule count_le_one_if_distinct)
  have two: "\<exists>tbl. markMessageProcessed w mid pt si (ledger s) = Inr tbl \<and>
               length tbl = length (ledger s) \<and>
               findUnique mid tbl = Some (r\<lparr>processingType := pt, storedIn := si\<rparr>) \<and>
               length (filter (\<lambda>r. rowMessageId r = mid) tbl) \<le> 1"
    if f: "findUnique mid (ledger s) = Some r" and ok: "upsert_ok w mid"
  proof -
    let ?tbl = "upsert mid pt si (now w) (ledger s)"
    have "markMessageProcessed w mid pt si (ledger s) = Inr ?tbl"
      using ok by (simp add: markMessageProcessed_def)
    moreover have "length ?tbl = length (ledger s)"
      using f by (simp add: upsert_length)
    moreover have "findUnique mid ?tbl = Some (r\<lparr>processingType := pt, storedIn := si\<rparr>)"
      using f by (simp add: findUnique_upsert_same)
    moreover have "length (filter (\<lambda>r. rowMessageId r = mid) ?tbl) \<le> 1"
      using d by (intro count_le_one_if_distinct upsert_distinct)
    ultimately show ?thesis by blast
  qed
  from one two show ?thesis by blast
qed

theorem ledger_at_most_one_record_witness:
  "length (filter (\<lambda>r. rowMessageId r = ''1001'') (ledger after_pizza_turn)) \<le> 1 \<and>
   findUnique ''1001'' (ledger after_pizza_turn) =
     Some \<lparr>rowMessageId = ''1001'', processedAt = ''2024-05-01T10:00:00.000Z'',
           processingType = ''immediate'', storedIn = Some ''fact''\<rparr> \<and>
   upsert_ok quiet_world ''1001'' \<and>
   (\<exists>tbl. markMessageProcessed quiet_world ''1001'' ''batch'' (Some ''consolidated'')
            (ledger after_pizza_turn) = Inr tbl \<and>
          length tbl = length (ledger after_pizza_turn) \<and>
          findUnique ''1001'' tbl =
            Some \<lparr>rowMessageId = ''1001'', processedAt = ''2024-05-01T10:00:00.000Z'',
                  processingType = ''batch'', storedIn = Some ''consolidated''\<rparr> \<and>
          length (filter (\<lambda>r. rowMessageId r = ''1001'') tbl) \<le> 1)"
proof -
  have r: "reachable after_pizza_turn"
    unfolding after_pizza_turn_def by (rule reachable.turn [OF reachable.start])
  have f: "findUnique ''1001'' (ledger after_pizza_turn) =
     Some \<lparr>rowMessageId = ''1001'', processedAt = ''2024-05-01T10:00:00.000Z'',
           processingType = ''immediate'', storedIn = Some ''fact''\<rparr>"
    by code_simp
  have ok: "upsert_ok quiet_world ''1001''"
    by code_simp
  show ?thesis
    using ledger_at_most_one_record [OF r, where mid = "''1001''" and w = quiet_world
        and pt = "''batch''" and si = "Some ''consolidated''"
        and r = "\<lparr>rowMessageId = ''1001'', processedAt = ''2024-05-01T10:00:00.000Z'',
           processingType = ''immediate'', storedIn = Some ''fact''\<rparr>"] f ok
    by simp
qed

section \<open>The immediate path and the ledger\<close>

lemma store_facts_cache:
  "conversation_cache (fst (store_facts w m input fs s)) = conversation_cache s"
  by (induction w m input fs s rule: store_facts.induct) (auto split: sum.splits)

text \<open>
  The loop throws exactly when it meets a \<open>null\<close> element, or an event while the Event
  table rejects the write.
\<close>

lemma store_facts_throws:
  "(snd (store_facts w m input fs s) \<noteq> None) =
     (None \<in> set fs \<or>
      (\<not> event_create_ok w \<and> (\<exists>x. Some x \<in> set fs \<and> fact_category x = ''event'')))"
  by (induction w m input fs s rule: store_facts.induct) (auto simp: addEvent_def)

text \<open>
  The immediate storage throws exactly on a \<open>null\<close> judgement, a malformed extraction, a
  rejected Event write or a rejected ledger write.
\<close>

lemma immediate_storage_throws:
  "(snd (immediate_storage w m input s) \<noteq> None) =
     (case detectImportance w input (conversation_cache s) of
        None \<Rightarrow> True
      | Some imp \<Rightarrow>
          important imp \<and> imp_category imp \<noteq> Some ''todo'' \<and>
          (extractWithContext w input (conversation_cache s) (message_id m) = NotIterable \<or>
           (\<exists>fs. extractWithContext w input (conversation_cache s) (message_id m) = FactsList fs \<and>
                 (None \<in> set fs \<or>
                  (\<not> event_create_ok w \<and> (\<exists>x. Some x \<in> set fs \<and> fact_category x = ''event'')))) \<or>
           \<not> upsert_ok w (message_id m)))"
proof (cases "detectImportance w input (conversation_cache s)")
  case None
  then show ?thesis
    by (simp add: immediate_storage_def)
next
  case (Some imp)
  show ?thesis
  proof (cases "important imp \<and> imp_category imp \<noteq> Some ''todo''")
    case False
    then show ?thesis
      using Some by (auto simp: immediate_storage_def)
  next
    case True
    show ?thesis
    proof (cases "extractWithContext w input (conversation_cache s) (message_id m)")
      case NotIterable
      with True Some show ?thesis
        by (simp add: immediate_storage_def)
    next
      case (FactsList fs)
      obtain s1 r where st: "store_facts w m input fs s = (s1, r)"
        by fastforce
      show ?thesis
      proof (cases r)
        case (Some e)
        have "snd (immediate_storage w m input s) \<noteq> None"
          using True \<open>detectImportance w input (conversation_cache s) = Some imp\<close> FactsList st Some
          by (simp add: immediate_storage_def)
        moreover have "None \<in> set fs \<or>
            (\<not> event_create_ok w \<and> (\<exists>x. Some x \<in> set fs \<and> fact_category x = ''event''))"
          using store_facts_throws [of w m input fs s] st Some by simp
        ultimately show ?thesis
          using True \<open>detectImportance w input (conversation_cache s) = Some imp\<close> FactsList by simp
      next
        case None
        have no: "\<not> (None \<in> set fs \<or>
            (\<not> event_create_ok w \<and> (\<exists>x. Some x \<in> set fs \<and> fact_category x = ''event'')))"
          using store_facts_throws [of w m input fs s] st None by simp
        have "(snd (immediate_storage w m input s) \<noteq> None) = (\<not> upsert_ok w (message_id m))"
          using True \<open>detectImportance w input (conversation_cache s) = Some imp\<close> FactsList st None
          by (simp add: immediate_storage_def markMessageProcessed_def)
        then show ?thesis
          using True \<open>detectImportance w input (conversation_cache s) = Some imp\<close> FactsList no by auto
      qed
    qed
  qed
qed

text \<open>What the immediate storage leaves in the ledger.\<close>

lemma immediate_storage_ledger:
  "ledger (fst (immediate_storage w m input s)) =
     (case detectImportance w input (conversation_cache s) of
        None \<Rightarrow> ledger s
      | Some imp \<Rightarrow>
          if important imp \<and> imp_category imp \<noteq> Some ''todo'' \<and>
             snd (immediate_storage w m input s) = None
          then upsert (message_id m) ''immediate'' (imp_category imp) (now w) (ledger s)
          else ledger s)"
proof -
  have l: "\<And>fs s1 e. store_facts w m input fs s = (s1, e) \<Longrightarrow> ledger s1 = ledger s"
    using store_facts_ledger by (metis fst_conv)
  show ?thesis
    by (auto simp: immediate_storage_def markMessageProcessed_def
        dest!: l split: prod.splits option.splits sum.splits extraction.splits if_splits)
qed

lemma handleAIChat_ledger_eq:
  "ai_configured w \<Longrightarrow> turn_input m \<noteq> [] \<Longrightarrow>
   ledger (fst (handleAIChat w m s)) =
     ledger (fst (immediate_storage w m (turn_input m)
       (s\<lparr>conversation_cache := conversation_cache s @ [userMessage w m (turn_input m)]\<rparr>)))"
proof -
  have c: "\<And>s1 s2 ms. context_retrieval w (turn_input m) s1 = (s2, ms) \<Longrightarrow> ledger s2 = ledger s1"
    using context_retrieval_ledger by (metis fst_conv)
  assume "ai_configured w" "turn_input m \<noteq> []"
  then show ?thesis
    by (auto simp: handleAIChat_def Let_def dest!: c split: prod.splits option.splits)
qed

text \<open>
  Claim C1, as the code has it. A turn is marked when the importance judgement is an
  object that deems it important in a category other than \<open>todo\<close>, the extraction reply
  is a list without a \<open>null\<close> entry, the Event table accepts the writes of its events
  (if it has any) and the ledger accepts the write. A marked turn ends with one ledger
  row for its message id, written by the upsert, with \<open>processingType = immediate\<close> and
  \<open>storedIn\<close> the judged category. Every other turn (judged unimportant, a todo, a
  \<open>null\<close> judgement, a malformed extraction, a rejected Event or ledger write) leaves the
  ledger as it was: it stays eligible for the nightly run.
\<close>

theorem immediate_ledger_record:
  "ai_configured w \<Longrightarrow> turn_input m \<noteq> [] \<Longrightarrow>
   judged = detectImportance w (turn_input m)
              (conversation_cache s @ [userMessage w m (turn_input m)]) \<Longrightarrow>
   extracted = extractWithContext w (turn_input m)
           (conversation_cache s @ [userMessage w m (turn_input m)]) (message_id m) \<Longrightarrow>
   marked = (\<exists>imp. judged = Some imp \<and> important imp \<and> imp_category imp \<noteq> Some ''todo'' \<and>
             (\<exists>fs. extracted = FactsList fs \<and> None \<notin> set fs \<and>
                   (event_create_ok w \<or> \<not> (\<exists>x. Some x \<in> set fs \<and> fact_category x = ''event''))) \<and>
             upsert_ok w (message_id m)) \<Longrightarrow>
   s' = fst (handleAIChat w m s) \<Longrightarrow>
   (marked \<longrightarrow>
      (\<exists>imp row. judged = Some imp \<and>
         ledger s' = upsert (message_id m) ''immediate'' (imp_category imp) (now w) (ledger s) \<and>
         findUnique (message_id m) (ledger s') = Some row \<and>
         processingType row = ''immediate'' \<and> storedIn row = imp_category imp)) \<and>
   (\<not> marked \<longrightarrow> ledger s' = ledger s)"
proof -
  let ?s0 = "s\<lparr>conversation_cache := conversation_cache s @ [userMessage w m (turn_input m)]\<rparr>"
  assume cfg: "ai_configured w" and inp: "turn_input m \<noteq> []"
    and jd: "judged = detectImportance w (turn_input m)
           (conversation_cache s @ [userMessage w m (turn_input m)])"
    and ext: "extracted = extractWithContext w (turn_input m)
           (conversation_cache s @ [userMessage w m (turn_input m)]) (message_id m)"
    and mk: "marked = (\<exists>imp. judged = Some imp \<and> important imp \<and> imp_category imp \<noteq> Some ''todo'' \<and>
             (\<exists>fs. extracted = FactsList fs \<and> None \<notin> set fs \<and>
                   (event_create_ok w \<or> \<not> (\<exists>x. Some x \<in> set fs \<and> fact_category x = ''event''))) \<and>
             upsert_ok w (message_id m))"
    and s': "s' = fst (handleAIChat w m s)"
  have led: "ledger s' = ledger (fst (immediate_storage w m (turn_input m) ?s0))"
    using handleAIChat_ledger_eq [OF cfg inp] s' by simp
  have jd0: "detectImportance w (turn_input m) (conversation_cache ?s0) = judged"
    and ext0: "extractWithContext w (turn_input m) (conversation_cache ?s0) (message_id m) = extracted"
    using jd ext by simp_all
  note thr = immediate_storage_throws [of w m "turn_input m" ?s0, unfolded jd0 ext0]
  note eq = immediate_storage_ledger [of w m "turn_input m" ?s0, unfolded jd0, folded led]
  show ?thesis
  proof (cases judged)
    case None
    then show ?thesis
      using eq mk by simp
  next
    case (Some imp)
    have iff: "marked = (important imp \<and> imp_category imp \<noteq> Some ''todo'' \<and>
       snd (immediate_storage w m (turn_input m) ?s0) = None)"
      using thr Some unfolding mk by (cases extracted) auto
    have e: "ledger s' =
       (if marked then upsert (message_id m) ''immediate'' (imp_category imp) (now w) (ledger s)
        else ledger s)"
      using eq Some iff by simp
    have row: "\<exists>row. findUnique (message_id m) (ledger s') = Some row \<and>
             processingType row = ''immediate'' \<and> storedIn row = imp_category imp"
      if marked
      using e that
      by (cases "findUnique (message_id m) (ledger s)") (simp_all add: findUnique_upsert_same)
    from e row Some show ?thesis by auto
  qed
qed

theorem immediate_ledger_record_witness:
  "ledger after_pizza_turn =
     [\<lparr>rowMessageId = ''1001'', processedAt = ''2024-05-01T10:00:00.000Z'',
       processingType = ''immediate'', storedIn = Some ''fact''\<rparr>] \<and>
   ledger after_quiet_turn = ledger initial_state \<and>
   ledger (fst (handleAIChat null_fact_world msg1 initial_state)) = ledger initial_state \<and>
   ledger (fst (handleAIChat null_judgement_world msg1 initial_state)) = ledger initial_state"
proof -
  have i: "turn_input msg1 \<noteq> []" by code_simp
  have c1: "ai_configured fact_world" by code_simp
  have c2: "ai_configured quiet_world" by code_simp
  have c3: "ai_configured null_fact_world" by code_simp
  have c4: "ai_configured null_judgement_world" by code_simp
  have d1: "detectImportance fact_world (turn_input msg1)
           (conversation_cache initial_state @ [userMessage fact_world msg1 (turn_input msg1)]) =
         Some \<lparr>important = True, reason = ''preference'', imp_category = Some ''fact''\<rparr>"
    by code_simp
  have d2: "detectImportance quiet_world (turn_input msg1)
           (conversation_cache initial_state @ [userMessage quiet_world msg1 (turn_input msg1)]) =
         Some \<lparr>important = False, reason = ''chat'', imp_category = Some ''none''\<rparr>"
    by code_simp
  have d3: "detectImportance null_fact_world (turn_input msg1)
           (conversation_cache initial_state @ [userMessage null_fact_world msg1 (turn_input msg1)]) =
         Some \<lparr>important = True, reason = ''preference'', imp_category = Some ''fact''\<rparr>"
    by code_simp
  have d4: "detectImportance null_judgement_world (turn_input msg1)
           (conversation_cache initial_state @
              [userMessage null_judgement_world msg1 (turn_input msg1)]) = None"
    by code_simp
  have x1: "extractWithContext fact_world (turn_input msg1)
           (conversation_cache initial_state @ [userMessage fact_world msg1 (turn_input msg1)])
           (message_id msg1) =
         FactsList [Some \<lparr>fact_text = ''likes pizza'', fact_category = ''fact'', confidence = 0.9\<rparr>]"
    by code_simp
  have x3: "extractWithContext null_fact_world (turn_input msg1)
           (conversation_cache initial_state @ [userMessage null_fact_world msg1 (turn_input msg1)])
           (message_id msg1) = FactsList [None]"
    by code_simp
  have e: "event_create_ok fact_world \<and> upsert_ok fact_world (message_id msg1)" by code_simp
  have m: "message_id msg1 = ''1001''" and n: "now fact_world = ''2024-05-01T10:00:00.000Z''"
    and l0: "ledger initial_state = []"
    by code_simp+
  show ?thesis
    using immediate_ledger_record [OF c1 i d1 [symmetric] x1 [symmetric] refl refl]
      immediate_ledger_record [OF c2 i d2 [symmetric] refl refl refl]
      immediate_ledger_record [OF c3 i d3 [symmetric] x3 [symmetric] refl refl]
      immediate_ledger_record [OF c4 i d4 [symmetric] refl refl refl] e
    unfolding after_pizza_turn_def after_quiet_turn_def m n l0
    by simp
qed

theorem immediate_ledger_record_counterexample:
  "ai_configured quiet_world \<and> turn_input msg1 = ''I like pizza'' \<and>
   snd (handleAIChat quiet_world msg1 initial_state) = Reply ''ok'' \<and>
   findUnique (message_id msg1) (ledger (fst (handleAIChat quiet_world msg1 initial_state))) = None"
  by code_simp

section \<open>The nightly run\<close>

lemma unprocessedMessages_has_id:
  "msg \<in> set (unprocessedMessages w tbl cache)
     \<Longrightarrow> msg \<in> set cache \<and> (\<exists>mid. messageId msg = Some mid \<and> mid \<noteq> [])"
  by (auto simp: unprocessedMessages_def split: option.splits)

lemma markMessageProcessed_same:
  "markMessageProcessed w mid pt si tbl = Inr tbl'
     \<Longrightarrow> \<exists>row. findUnique mid tbl' = Some row \<and> processingType row = pt \<and> storedIn row = si"
  by (cases "findUnique mid tbl")
     (auto simp: markMessageProcessed_def findUnique_upsert_same split: if_splits)

lemma markMessageProcessed_other:
  "markMessageProcessed w mid pt si tbl = Inr tbl' \<Longrightarrow> mid' \<noteq> mid
     \<Longrightarrow> findUnique mid' tbl' = findUnique mid' tbl"
  by (auto simp: markMessageProcessed_def findUnique_upsert_other split: if_splits)

lemma mark_batch_keeps:
  "mark_batch w msgs tbl = (tbl', e) \<Longrightarrow>
   \<exists>row. findUnique mid tbl = Some row \<and> processingType row = ''batch'' \<and>
         storedIn row = Some ''consolidated'' \<Longrightarrow>
   \<exists>row. findUnique mid tbl' = Some row \<and> processingType row = ''batch'' \<and>
         storedIn row = Some ''consolidated''"
proof (induction msgs arbitrary: tbl)
  case Nil
  then show ?case by simp
next
  case (Cons msg msgs)
  show ?case
  proof (cases "messageId msg")
    case None
    with Cons show ?thesis by simp
  next
    case (Some k)
    show ?thesis
    proof (cases "k = []")
      case True
      with Some Cons show ?thesis by simp
    next
      case False
      show ?thesis
      proof (cases "markMessageProcessed w k ''batch'' (Some ''consolidated'') tbl")
        case (Inl x)
        with Some False Cons.prems show ?thesis by simp
      next
        case (Inr t)
        have "\<exists>row. findUnique mid t = Some row \<and> processingType row = ''batch'' \<and>
                storedIn row = Some ''consolidated''"
          using markMessageProcessed_same [OF Inr] markMessageProcessed_other [OF Inr, of mid]
            Cons.prems(2) by (cases "mid = k") auto
        moreover have "mark_batch w msgs t = (tbl', e)"
          using Cons.prems(1) Some False Inr by simp
        ultimately show ?thesis by (rule Cons.IH [rotated])
      qed
    qed
  qed
qed

lemma mark_batch_marks:
  "mark_batch w msgs tbl = (tbl', None) \<Longrightarrow> msg \<in> set msgs \<Longrightarrow>
   messageId msg = Some mid \<Longrightarrow> mid \<noteq> [] \<Longrightarrow>
   \<exists>row. findUnique mid tbl' = Some row \<and> processingType row = ''batch'' \<and>
         storedIn row = Some ''consolidated''"
proof (induction msgs arbitrary: tbl)
  case Nil
  then show ?case by simp
next
  case (Cons x xs)
  show ?case
  proof (cases "messageId x")
    case None
    with Cons show ?thesis by auto
  next
    case (Some k)
    show ?thesis
    proof (cases "k = []")
      case True
      with Some Cons show ?thesis by auto
    next
      case False
      show ?thesis
      proof (cases "markMessageProcessed w k ''batch'' (Some ''consolidated'') tbl")
        case (Inl e)
        with Some False Cons.prems show ?thesis by simp
      next
        case (Inr t)
        have rest: "mark_batch w xs t = (tbl', None)"
          using Cons.prems(1) Some False Inr by simp
        show ?thesis
        proof (cases "msg = x")
          case True
          then have "k = mid" using Some Cons.prems(3) by simp
          then show ?thesis
            using mark_batch_keeps [OF rest] markMessageProcessed_same [OF Inr] by blast
        next
          case False
          then have "msg \<in> set xs" using Cons.prems(2) by simp
          then show ?thesis
            using Cons.IH [OF rest _ Cons.prems(3) Cons.prems(4)] by blast
        qed
      qed
    qed
  qed
qed

lemma mark_batch_keys:
  "set (map rowMessageId (fst (mark_batch w msgs tbl)))
     \<subseteq> set (map rowMessageId tbl) \<union> {mid. \<exists>msg\<in>set msgs. messageId msg = Some mid}"
proof (induction msgs arbitrary: tbl)
  case Nil
  then show ?case by simp
next
  case (Cons x xs)
  show ?case
  proof (cases "messageId x")
    case None
    then show ?thesis using Cons.IH [of tbl] by auto
  next
    case (Some k)
    show ?thesis
    proof (cases "k = [] \<or> \<not> upsert_ok w k")
      case True
      then show ?thesis
        using Some Cons.IH [of tbl] by (auto simp: markMessageProcessed_def)
    next
      case False
      then have "fst (mark_batch w (x # xs) tbl) =
          fst (mark_batch w xs (upsert k ''batch'' (Some ''consolidated'') (now w) tbl))"
        using Some by (simp add: markMessageProcessed_def)
      then show ?thesis
        using Cons.IH [of "upsert k ''batch'' (Some ''consolidated'') (now w) tbl"] Some
        by (auto simp: upsert_keys simp del: set_map)
    qed
  qed
qed

lemma consolidation_nothing:
  "unprocessedMessages w (ledger s) (conversation_cache s) = []
     \<Longrightarrow> consolidation w s = (s, NothingToDo)"
  by (simp add: consolidation_def getConversationCache_def)

lemma consolidation_completed:
  assumes "consolidation w s = (s', Completed)"
  shows "unprocessedMessages w (ledger s) (conversation_cache s) \<noteq> [] \<and>
         conversation_cache s' = [] \<and>
         (if processConversations w (unprocessedMessages w (ledger s) (conversation_cache s)) = []
          then ledger s' = ledger s
          else mark_batch w (unprocessedMessages w (ledger s) (conversation_cache s)) (ledger s)
                 = (ledger s', None))"
  using assms
  by (auto simp: consolidation_def getConversationCache_def clearConversationCache_def Let_def
      split: if_splits prod.splits option.splits)

text \<open>
  Claim C2, as the code has it. A run that gathers messages and reaches the end of its
  \<open>try\<close> block has emptied the cache. When the extraction gave at least one chunk,
  every gathered message then has a ledger row with \<open>processingType = batch\<close> and
  \<open>storedIn = consolidated\<close>. When every chunk was discarded, the marking loop is not
  entered and the ledger is as it was before the run.
\<close>

theorem consolidation_marks_when_chunks:
  "consolidation w s = (s', Completed) \<Longrightarrow>
   gathered = unprocessedMessages w (ledger s) (conversation_cache s) \<Longrightarrow>
   gathered \<noteq> [] \<and> conversation_cache s' = [] \<and>
   (processConversations w gathered \<noteq> [] \<longrightarrow>
      (\<forall>msg\<in>set gathered. \<exists>mid row. messageId msg = Some mid \<and>
          findUnique mid (ledger s') = Some row \<and>
          processingType row = ''batch'' \<and> storedIn row = Some ''consolidated'')) \<and>
   (processConversations w gathered = [] \<longrightarrow> ledger s' = ledger s)"
proof -
  assume run: "consolidation w s = (s', Completed)"
    and g: "gathered = unprocessedMessages w (ledger s) (conversation_cache s)"
  note c = consolidation_completed [OF run, folded g]
  have marked: "\<exists>mid row. messageId msg = Some mid \<and>
          findUnique mid (ledger s') = Some row \<and>
          processingType row = ''batch'' \<and> storedIn row = Some ''consolidated''"
    if chunks: "processConversations w gathered \<noteq> []" and msg: "msg \<in> set gathered" for msg
  proof -
    from msg obtain mid where mid: "messageId msg = Some mid" "mid \<noteq> []"
      using unprocessedMessages_has_id g by blast
    have "mark_batch w gathered (ledger s) = (ledger s', None)"
      using c chunks by simp
    from mark_batch_marks [OF this msg mid] mid show ?thesis by blast
  qed
  from c marked show ?thesis by auto
qed

theorem consolidation_marks_when_chunks_witness:
  "unprocessedMessages batch_world (ledger after_quiet_turn) (conversation_cache after_quiet_turn) =
     [\<lparr>role = User, content = ''ann: I like pizza'', messageId = Some ''1001'',
       timestamp = Some ''2024-05-01T10:00:00.000Z''\<rparr>] \<and>
   processConversations batch_world
     (unprocessedMessages batch_world (ledger after_quiet_turn) (conversation_cache after_quiet_turn)) \<noteq> [] \<and>
   snd (consolidation batch_world after_quiet_turn) = Completed \<and>
   conversation_cache (fst (consolidation batch_world after_quiet_turn)) = [] \<and>
   (\<exists>row. findUnique ''1001'' (ledger (fst (consolidation batch_world after_quiet_turn))) = Some row \<and>
          processingType row = ''batch'' \<and> storedIn row = Some ''consolidated'') \<and>
   processConversations quiet_world
     (unprocessedMessages quiet_world (ledger after_quiet_turn) (conversation_cache after_quiet_turn)) = [] \<and>
   ledger (fst (consolidation quiet_world after_quiet_turn)) = ledger after_quiet_turn"
proof -
  have g: "unprocessedMessages batch_world (ledger after_quiet_turn) (conversation_cache after_quiet_turn) =
     [\<lparr>role = User, content = ''ann: I like pizza'', messageId = Some ''1001'',
       timestamp = Some ''2024-05-01T10:00:00.000Z''\<rparr>]"
    by code_simp
  have p: "processConversations batch_world
     (unprocessedMessages batch_world (ledger after_quiet_turn) (conversation_cache after_quiet_turn)) \<noteq> []"
    by code_simp
  have q: "processConversations quiet_world
     (unprocessedMessages quiet_world (ledger after_quiet_turn) (conversation_cache after_quiet_turn)) = []"
    by code_simp
  have r1: "consolidation batch_world after_quiet_turn =
      (fst (consolidation batch_world after_quiet_turn), Completed)"
    by code_simp
  have r2: "consolidation quiet_world after_quiet_turn =
      (fst (consolidation quiet_world after_quiet_turn), Completed)"
    by code_simp
  have c1: "snd (consolidation batch_world after_quiet_turn) = Completed"
    by code_simp
  show ?thesis
    using consolidation_marks_when_chunks [OF r1 refl] consolidation_marks_when_chunks [OF r2 refl]
      p q c1
    by (simp add: g)
qed

theorem consolidation_marks_when_chunks_counterexample:
  "unprocessedMessages quiet_world (ledger after_quiet_turn) (conversation_cache after_quiet_turn) =
     [\<lparr>role = User, content = ''ann: I like pizza'', messageId = Some ''1001'',
       timestamp = Some ''2024-05-01T10:00:00.000Z''\<rparr>] \<and>
   snd (consolidation quiet_world after_quiet_turn) = Completed \<and>
   conversation_cache (fst (consolidation quiet_world after_quiet_turn)) = [] \<and>
   findUnique ''1001'' (ledger (fst (consolidation quiet_world after_quiet_turn))) = None"
  by code_simp

text \<open>What a run gathers, and what it does with it.\<close>

lemma unprocessedMessages_filter:
  "unprocessedMessages w tbl cache =
     filter (\<lambda>msg. case messageId msg of
                     None \<Rightarrow> False
                   | Some mid \<Rightarrow> mid \<noteq> [] \<and> \<not> (find_ok w mid \<and> findUnique mid tbl \<noteq> None))
       cache"
  unfolding unprocessedMessages_def
  by (rule filter_cong) (auto simp: isMessageProcessed_def split: option.splits)

lemma consolidation_effects:
  assumes "G = unprocessedMessages w (ledger s) (conversation_cache s)" and "G \<noteq> []"
  shows "snd (consolidation w s) \<noteq> NothingToDo \<and>
         vstore (fst (consolidation w s)) = store_chunks w (processConversations w G) (vstore s) \<and>
         ledger (fst (consolidation w s)) =
           (if processConversations w G = [] then ledger s else fst (mark_batch w G (ledger s)))"
  using assms
  by (auto simp: consolidation_def getConversationCache_def clearConversationCache_def Let_def
      split: prod.splits option.splits)

text \<open>
  The run consults the bulk extraction at the text of the gathered entries and nowhere
  else: a collaborator that answers that one text in the same way gives the same run.
\<close>

lemma unprocessedMessages_batch_reply:
  "unprocessedMessages (w\<lparr>batch_reply := f\<rparr>) tbl cache = unprocessedMessages w tbl cache"
  by (simp add: unprocessedMessages_def isMessageProcessed_def cong: option.case_cong)

lemma storeMemory_batch_reply:
  "storeMemory (w\<lparr>batch_reply := f\<rparr>) narr md v = storeMemory w narr md v"
  by (simp add: storeMemory_def initializeVectorDB_def generateEmbedding_def collection_add_def
      Let_def cong: option.case_cong sum.case_cong if_cong)

lemma store_chunks_batch_reply:
  "store_chunks (w\<lparr>batch_reply := f\<rparr>) cs v = store_chunks w cs v"
  by (induction cs arbitrary: v) (simp_all add: storeMemory_batch_reply)

lemma mark_batch_batch_reply:
  "mark_batch (w\<lparr>batch_reply := f\<rparr>) msgs tbl = mark_batch w msgs tbl"
  by (induction msgs arbitrary: tbl)
     (simp_all add: markMessageProcessed_def cong: option.case_cong sum.case_cong if_cong)

lemma processConversations_batch_reply:
  "f (conversationText G) = batch_reply w (conversationText G)
     \<Longrightarrow> processConversations (w\<lparr>batch_reply := f\<rparr>) G = processConversations w G"
  by (simp add: processConversations_def cong: option.case_cong)

lemma consolidation_extraction_input:
  assumes "G = unprocessedMessages w (ledger s) (conversation_cache s)"
    and "f (conversationText G) = batch_reply w (conversationText G)"
  shows "consolidation (w\<lparr>batch_reply := f\<rparr>) s = consolidation w s"
proof -
  have p: "processConversations (w\<lparr>batch_reply := f\<rparr>)
             (unprocessedMessages w (ledger s) (conversation_cache s)) =
           processConversations w (unprocessedMessages w (ledger s) (conversation_cache s))"
    using processConversations_batch_reply [of f G w] assms by simp
  show ?thesis
    by (simp add: consolidation_def getConversationCache_def unprocessedMessages_batch_reply
        store_chunks_batch_reply mark_batch_batch_reply p Let_def)
qed

text \<open>
  Claim C7, as the code has it. A run gathers, in cache order, the entries that carry a
  non-empty message id for which the ledger lookup reports no row: the entries with no
  ledger row, and also the entries whose lookup fails, since \<open>isMessageProcessed\<close>
  answers \<open>false\<close> in its \<open>catch\<close>; when every lookup answers, these are exactly the
  entries whose id has no ledger row. The run works on this set \<open>G\<close> and on nothing else:
  the text of \<open>G\<close> is what it hands to the bulk extraction, the chunks made from it are
  what it stores, and the ids of \<open>G\<close> are what it marks when there is a chunk. When \<open>G\<close>
  is empty the run returns at once with the state as it was: the cache untouched, no
  ledger row written.
\<close>

theorem consolidation_gathers_unledgered:
  "G = filter (\<lambda>msg. case messageId msg of
                      None \<Rightarrow> False
                    | Some mid \<Rightarrow> mid \<noteq> [] \<and> \<not> (find_ok w mid \<and> findUnique mid (ledger s) \<noteq> None))
         (conversation_cache s) \<Longrightarrow>
   (G = [] \<longrightarrow> consolidation w s = (s, NothingToDo)) \<and>
   (G \<noteq> [] \<longrightarrow>
      snd (consolidation w s) \<noteq> NothingToDo \<and>
      vstore (fst (consolidation w s)) = store_chunks w (processConversations w G) (vstore s) \<and>
      ledger (fst (consolidation w s)) =
        (if processConversations w G = [] then ledger s else fst (mark_batch w G (ledger s)))) \<and>
   (\<forall>f. f (conversationText G) = batch_reply w (conversationText G) \<longrightarrow>
        consolidation (w\<lparr>batch_reply := f\<rparr>) s = consolidation w s) \<and>
   ((\<forall>mid. find_ok w mid) \<longrightarrow>
      G = filter (\<lambda>msg. case messageId msg of
                         None \<Rightarrow> False
                       | Some mid \<Rightarrow> mid \<noteq> [] \<and> findUnique mid (ledger s) = None)
            (conversation_cache s))"
proof -
  assume "G = filter (\<lambda>msg. case messageId msg of
                      None \<Rightarrow> False
                    | Some mid \<Rightarrow> mid \<noteq> [] \<and> \<not> (find_ok w mid \<and> findUnique mid (ledger s) \<noteq> None))
         (conversation_cache s)"
  then have g: "G = unprocessedMessages w (ledger s) (conversation_cache s)"
    by (simp add: unprocessedMessages_filter)
  have a: "G = [] \<longrightarrow> consolidation w s = (s, NothingToDo)"
    using consolidation_nothing g by simp
  have b: "G \<noteq> [] \<longrightarrow>
      snd (consolidation w s) \<noteq> NothingToDo \<and>
      vstore (fst (consolidation w s)) = store_chunks w (processConversations w G) (vstore s) \<and>
      ledger (fst (consolidation w s)) =
        (if processConversations w G = [] then ledger s else fst (mark_batch w G (ledger s)))"
    using consolidation_effects [OF g] by blast
  have c: "\<forall>f. f (conversationText G) = batch_reply w (conversationText G) \<longrightarrow>
        consolidation (w\<lparr>batch_reply := f\<rparr>) s = consolidation w s"
    using consolidation_extraction_input [OF g] by blast
  have d: "G = filter (\<lambda>msg. case messageId msg of
                         None \<Rightarrow> False
                       | Some mid \<Rightarrow> mid \<noteq> [] \<and> findUnique mid (ledger s) = None)
            (conversation_cache s)"
    if "\<forall>mid. find_ok w mid"
    unfolding g unprocessedMessages_def
    by (rule filter_cong) (auto simp: isMessageProcessed_def that split: option.splits)
  from a b c d show ?thesis by blast
qed

theorem consolidation_gathers_unledgered_witness:
  "map messageId (conversation_cache after_two_turns) = [Some ''1001'', None, Some ''1002'', None] \<and>
   map rowMessageId (ledger after_two_turns) = [''1001''] \<and>
   snd (consolidation batch_world after_two_turns) \<noteq> NothingToDo \<and>
   map document (items (vstore (fst (consolidation batch_world after_two_turns)))) =
     [''likes pizza'', ''ann likes pizza very much''] \<and>
   map rowMessageId (ledger (fst (consolidation batch_world after_two_turns))) = [''1001'', ''1002''] \<and>
   consolidation
     (batch_world\<lparr>batch_reply :=
        (\<lambda>t. if t = ''ann: dentist on friday'' then Some ''ann likes pizza very much | ok''
             else Some ''the assistant said something long enough'')\<rparr>) after_two_turns =
     consolidation batch_world after_two_turns \<and>
   consolidation quiet_world after_pizza_turn = (after_pizza_turn, NothingToDo)"
proof -
  let ?G = "[\<lparr>role = User, content = ''ann: dentist on friday'', messageId = Some ''1002'',
              timestamp = Some ''2024-05-01T10:00:00.000Z''\<rparr>]"
  let ?f = "\<lambda>t. if t = ''ann: dentist on friday'' then Some ''ann likes pizza very much | ok''
             else Some ''the assistant said something long enough''"
  have c: "map messageId (conversation_cache after_two_turns) = [Some ''1001'', None, Some ''1002'', None]"
    by code_simp
  have l: "map rowMessageId (ledger after_two_turns) = [''1001'']"
    by code_simp
  have g2: "?G = filter (\<lambda>msg. case messageId msg of
                      None \<Rightarrow> False
                    | Some mid \<Rightarrow> mid \<noteq> [] \<and>
                        \<not> (find_ok batch_world mid \<and> findUnique mid (ledger after_two_turns) \<noteq> None))
         (conversation_cache after_two_turns)"
    by code_simp
  have g1: "[] = filter (\<lambda>msg. case messageId msg of
                      None \<Rightarrow> False
                    | Some mid \<Rightarrow> mid \<noteq> [] \<and>
                        \<not> (find_ok quiet_world mid \<and> findUnique mid (ledger after_pizza_turn) \<noteq> None))
         (conversation_cache after_pizza_turn)"
    by code_simp
  have p: "processConversations batch_world ?G \<noteq> []"
    by code_simp
  have v: "map document (items (store_chunks batch_world (processConversations batch_world ?G)
             (vstore after_two_turns))) = [''likes pizza'', ''ann likes pizza very much'']"
    by code_simp
  have k: "map rowMessageId (fst (mark_batch batch_world ?G (ledger after_two_turns))) = [''1001'', ''1002'']"
    by code_simp
  have t: "conversationText ?G = ''ann: dentist on friday''"
    by code_simp
  have b: "batch_reply batch_world ''ann: dentist on friday'' = Some ''ann likes pizza very much | ok''"
    by code_simp
  have two: "snd (consolidation batch_world after_two_turns) \<noteq> NothingToDo \<and>
      vstore (fst (consolidation batch_world after_two_turns)) =
        store_chunks batch_world (processConversations batch_world ?G) (vstore after_two_turns) \<and>
      ledger (fst (consolidation batch_world after_two_turns)) =
        fst (mark_batch batch_world ?G (ledger after_two_turns))"
    using consolidation_gathers_unledgered [OF g2] p by simp
  have same: "consolidation (batch_world\<lparr>batch_reply := ?f\<rparr>) after_two_turns =
      consolidation batch_world after_two_turns"
    using consolidation_gathers_unledgered [OF g2] t b by simp
  have none: "consolidation quiet_world after_pizza_turn = (after_pizza_turn, NothingToDo)"
    using consolidation_gathers_unledgered [OF g1] by simp
  from c l two v k same none show ?thesis by simp
qed

theorem consolidation_gathers_unledgered_counterexample:
  "findUnique ''1001'' (ledger after_two_turns) =
     Some \<lparr>rowMessageId = ''1001'', processedAt = ''2024-05-01T10:00:00.000Z'',
           processingType = ''immediate'', storedIn = Some ''fact''\<rparr> \<and>
   map messageId (unprocessedMessages lookup_outage_world (ledger after_two_turns)
                    (conversation_cache after_two_turns)) = [Some ''1001'', Some ''1002''] \<and>
   findUnique ''1001'' (ledger (fst (consolidation lookup_outage_world after_two_turns))) =
     Some \<lparr>rowMessageId = ''1001'', processedAt = ''2024-05-01T10:00:00.000Z'',
           processingType = ''batch'', storedIn = Some ''consolidated''\<rparr>"
  by code_simp

section \<open>The conversation cache\<close>

lemma immediate_storage_cache:
  "conversation_cache (fst (immediate_storage w m input s)) = conversation_cache s"
proof -
  have l: "\<And>fs s1 e. store_facts w m input fs s = (s1, e)
      \<Longrightarrow> conversation_cache s1 = conversation_cache s"
    using store_facts_cache by (metis fst_conv)
  show ?thesis
    by (auto simp: immediate_storage_def Let_def dest!: l
        split: prod.splits option.splits sum.splits extraction.splits)
qed

lemma context_retrieval_cache:
  "conversation_cache (fst (context_retrieval w input s)) = conversation_cache s"
  by (simp add: context_retrieval_def Let_def)

text \<open>What a turn does to the cache, by the \<open>send\<close> that ends it.\<close>

lemma handleAIChat_cache:
  "conversation_cache (fst (handleAIChat w m s)) =
     (case snd (handleAIChat w m s) of
        NotConfigured \<Rightarrow> conversation_cache s
      | AskInput \<Rightarrow> conversation_cache s
      | Apology \<Rightarrow> conversation_cache s @ [userMessage w m (turn_input m)]
      | Reply b \<Rightarrow>
          (if length (conversation_cache s @ [userMessage w m (turn_input m), assistantMessage b]) > 50
           then slice_last 40 (conversation_cache s @ [userMessage w m (turn_input m), assistantMessage b])
           else conversation_cache s @ [userMessage w m (turn_input m), assistantMessage b]))"
proof -
  let ?s0 = "s\<lparr>conversation_cache := conversation_cache s @ [userMessage w m (turn_input m)]\<rparr>"
  have i: "\<And>s1 e. immediate_storage w m (turn_input m) ?s0 = (s1, e)
      \<Longrightarrow> conversation_cache s1 = conversation_cache s @ [userMessage w m (turn_input m)]"
    using immediate_storage_cache [of w m "turn_input m" ?s0] by (metis fst_conv state.select_convs(1) state.surjective state.update_convs(1))
  have c: "\<And>s1 s2 ms. context_retrieval w (turn_input m) s1 = (s2, ms)
      \<Longrightarrow> conversation_cache s2 = conversation_cache s1"
    using context_retrieval_cache by (metis fst_conv)
  show ?thesis
    by (auto simp: handleAIChat_def Let_def dest!: i c split: prod.splits option.splits)
qed

lemma slice_last_length: "length (slice_last n xs) = min n (length xs)"
  by (auto simp: slice_last_def)

lemma set_slice_last: "set (slice_last n xs) \<subseteq> set xs"
  by (auto simp: slice_last_def dest: in_set_dropD)

text \<open>
  Claim C5, as the code has it. A turn that ends with the model's reply has appended the
  user entry and the assistant entry, and leaves at most 50 entries: all of them when
  they are at most 50, the last 40 of them otherwise; what is kept is the most recent
  entries in append order.
\<close>

theorem cache_bound_after_reply:
  "handleAIChat w m s = (s', Reply b) \<Longrightarrow>
   appended = conversation_cache s @ [userMessage w m (turn_input m), assistantMessage b] \<Longrightarrow>
   length (conversation_cache s') \<le> 50 \<and>
   conversation_cache s' =
     drop (length appended - (if length appended > 50 then 40 else length appended)) appended"
proof -
  assume run: "handleAIChat w m s = (s', Reply b)"
    and a: "appended = conversation_cache s @ [userMessage w m (turn_input m), assistantMessage b]"
  have "conversation_cache s' = (if length appended > 50 then slice_last 40 appended else appended)"
    using handleAIChat_cache [of w m s] run unfolding a by simp
  then show ?thesis
    by (auto simp: slice_last_def)
qed

theorem cache_bound_after_reply_witness:
  "length (conversation_cache after_25_turns) = 50 \<and>
   snd (handleAIChat quiet_world msg1 after_25_turns) = Reply ''ok'' \<and>
   length (conversation_cache (fst (handleAIChat quiet_world msg1 after_25_turns))) \<le> 50 \<and>
   conversation_cache (fst (handleAIChat quiet_world msg1 after_25_turns)) =
     drop 12 (conversation_cache after_25_turns @
               [userMessage quiet_world msg1 (turn_input msg1), assistantMessage ''ok''])"
proof -
  have l: "length (conversation_cache after_25_turns) = 50"
    by code_simp
  have r: "snd (handleAIChat quiet_world msg1 after_25_turns) = Reply ''ok''"
    by code_simp
  then have run: "handleAIChat quiet_world msg1 after_25_turns =
      (fst (handleAIChat quiet_world msg1 after_25_turns), Reply ''ok'')"
    by (metis prod.collapse)
  show ?thesis
    using cache_bound_after_reply [OF run refl] l r by simp
qed

theorem cache_bound_after_reply_counterexample:
  "length (conversation_cache after_25_turns) = 50 \<and>
   length (conversation_cache (fst (handleAIChat reply_outage_world msg1 after_25_turns))) = 51"
  by code_simp

text \<open>Assistant entries carry no message id, in every reachable state.\<close>

lemma handleAIChat_cache_entries:
  "set (conversation_cache (fst (handleAIChat w m s)))
     \<subseteq> set (conversation_cache s) \<union> {userMessage w m (turn_input m)} \<union> range assistantMessage"
proof (cases "snd (handleAIChat w m s)")
  case (Reply b)
  then show ?thesis
    using set_slice_last [of 40 "conversation_cache s @ [userMessage w m (turn_input m), assistantMessage b]"]
    by (auto simp: handleAIChat_cache)
qed (auto simp: handleAIChat_cache)

lemma consolidation_cache:
  "conversation_cache (fst (consolidation w s)) = conversation_cache s \<or>
   conversation_cache (fst (consolidation w s)) = []"
  by (auto simp: consolidation_def getConversationCache_def clearConversationCache_def Let_def
      split: prod.splits option.splits)

lemma reachable_ids_are_users:
  "reachable s \<Longrightarrow> \<forall>e\<in>set (conversation_cache s). messageId e \<noteq> None \<longrightarrow> role e = User"
proof (induction rule: reachable.induct)
  case start
  then show ?case by (simp add: initial_state_def)
next
  case (turn s w m)
  have "messageId e \<noteq> None \<longrightarrow> role e = User"
    if "e \<in> set (conversation_cache s) \<union> {userMessage w m (turn_input m)} \<union> range assistantMessage"
    for e
    using that turn.IH by (auto simp: userMessage_def assistantMessage_def)
  then show ?case
    using handleAIChat_cache_entries [of w m s] by blast
next
  case (nightly s w)
  then show ?case
    using consolidation_cache [of w s] by auto
qed

lemma consolidation_ledger_keys:
  "set (map rowMessageId (ledger (fst (consolidation w s))))
     \<subseteq> set (map rowMessageId (ledger s)) \<union>
        {mid. \<exists>msg\<in>set (unprocessedMessages w (ledger s) (conversation_cache s)).
                messageId msg = Some mid}"
proof -
  have k: "\<And>tbl e. mark_batch w (unprocessedMessages w (ledger s) (conversation_cache s)) (ledger s) = (tbl, e)
      \<Longrightarrow> set (map rowMessageId tbl) \<subseteq> set (map rowMessageId (ledger s)) \<union>
        {mid. \<exists>msg\<in>set (unprocessedMessages w (ledger s) (conversation_cache s)).
                messageId msg = Some mid}"
    using mark_batch_keys [of w "unprocessedMessages w (ledger s) (conversation_cache s)" "ledger s"]
    by (metis fst_conv)
  show ?thesis
    by (auto simp: consolidation_def getConversationCache_def clearConversationCache_def Let_def
        simp del: set_map dest!: k split: prod.splits option.splits)
qed

lemma handleAIChat_last:
  "snd (handleAIChat w m s) = Reply b
     \<Longrightarrow> last (conversation_cache (fst (handleAIChat w m s))) = assistantMessage b"
proof -
  assume r: "snd (handleAIChat w m s) = Reply b"
  let ?c = "conversation_cache s @ [userMessage w m (turn_input m), assistantMessage b]"
  have "last (slice_last 40 ?c) = assistantMessage b"
    by (simp add: slice_last_def)
  moreover have "last ?c = assistantMessage b"
    by simp
  ultimately show ?thesis
    using handleAIChat_cache [of w m s] r by (simp del: last_appendR last_append)
qed

text \<open>
  Claim C10. A turn answered with a reply pushes the assistant entry last, without a
  message id. In every reachable state, whatever the world, the entries a run gathers are
  user entries that carry a message id, and no assistant entry is among them. The run
  works on the gathered entries only: it consults the bulk extraction at the text of the
  gathered entries and at no other text, it stores the chunks made from that text, and
  every ledger key it adds is the id of a gathered entry.
\<close>

theorem consolidation_never_gathers_assistant:
  "reachable s \<Longrightarrow>
   gathered = unprocessedMessages w (ledger s) (conversation_cache s) \<Longrightarrow>
   (snd (handleAIChat w' m s) = Reply b \<longrightarrow>
      last (conversation_cache (fst (handleAIChat w' m s))) = assistantMessage b) \<and>
   messageId (assistantMessage b) = None \<and>
   (\<forall>msg\<in>set gathered. role msg = User \<and> (\<exists>mid. messageId msg = Some mid \<and> mid \<noteq> [])) \<and>
   assistantMessage b \<notin> set gathered \<and>
   (\<forall>f. f (conversationText gathered) = batch_reply w (conversationText gathered) \<longrightarrow>
        consolidation (w\<lparr>batch_reply := f\<rparr>) s = consolidation w s) \<and>
   vstore (fst (consolidation w s)) = store_chunks w (processConversations w gathered) (vstore s) \<and>
   set (map rowMessageId (ledger (fst (consolidation w s))))
     \<subseteq> set (map rowMessageId (ledger s)) \<union> {mid. \<exists>msg\<in>set gathered. messageId msg = Some mid}"
proof -
  assume r: "reachable s"
    and g: "gathered = unprocessedMessages w (ledger s) (conversation_cache s)"
  have u: "role msg = User \<and> (\<exists>mid. messageId msg = Some mid \<and> mid \<noteq> [])"
    if "msg \<in> set gathered" for msg
  proof -
    from that have "msg \<in> set (conversation_cache s)" and "\<exists>mid. messageId msg = Some mid \<and> mid \<noteq> []"
      using unprocessedMessages_has_id g by blast+
    then show ?thesis
      using reachable_ids_are_users [OF r] by auto
  qed
  have n: "messageId (assistantMessage b) = None"
    by (simp add: assistantMessage_def)
  have a: "assistantMessage b \<notin> set gathered"
    using u n by fastforce
  have l: "snd (handleAIChat w' m s) = Reply b \<longrightarrow>
      last (conversation_cache (fst (handleAIChat w' m s))) = assistantMessage b"
    using handleAIChat_last by blast
  have x: "\<forall>f. f (conversationText gathered) = batch_reply w (conversationText gathered) \<longrightarrow>
        consolidation (w\<lparr>batch_reply := f\<rparr>) s = consolidation w s"
    using consolidation_extraction_input [OF g] by blast
  have v: "vstore (fst (consolidation w s)) =
      store_chunks w (processConversations w gathered) (vstore s)"
  proof (cases "gathered = []")
    case True
    then show ?thesis
      using consolidation_nothing [of w s] g by (simp add: processConversations_def)
  next
    case False
    then show ?thesis
      using consolidation_effects [OF g] by simp
  qed
  have k: "set (map rowMessageId (ledger (fst (consolidation w s))))
     \<subseteq> set (map rowMessageId (ledger s)) \<union> {mid. \<exists>msg\<in>set gathered. messageId msg = Some mid}"
    using consolidation_ledger_keys [of w s] g by simp
  from l n u a x v k show ?thesis by blast
qed

theorem consolidation_never_gathers_assistant_witness:
  "map role (conversation_cache after_two_turns) = [User, Assistant, User, Assistant] \<and>
   snd (handleAIChat quiet_world msg2 after_pizza_turn) = Reply ''ok'' \<and>
   last (conversation_cache after_two_turns) = assistantMessage ''ok'' \<and>
   map role (unprocessedMessages batch_world (ledger after_two_turns)
               (conversation_cache after_two_turns)) = [User] \<and>
   conversationText (unprocessedMessages batch_world (ledger after_two_turns)
               (conversation_cache after_two_turns)) = ''ann: dentist on friday'' \<and>
   assistantMessage ''ok'' \<in> set (conversation_cache after_two_turns) \<and>
   assistantMessage ''ok'' \<notin> set (unprocessedMessages batch_world (ledger after_two_turns)
               (conversation_cache after_two_turns)) \<and>
   consolidation
     (batch_world\<lparr>batch_reply :=
        (\<lambda>t. if t = ''ann: dentist on friday'' then Some ''ann likes pizza very much | ok''
             else Some ''the assistant said ok, which is not a fact'')\<rparr>) after_two_turns =
     consolidation batch_world after_two_turns \<and>
   map document (items (vstore (fst (consolidation batch_world after_two_turns)))) =
     [''likes pizza'', ''ann likes pizza very much''] \<and>
   map rowMessageId (ledger (fst (consolidation batch_world after_two_turns))) = [''1001'', ''1002'']"
proof -
  let ?f = "\<lambda>t. if t = ''ann: dentist on friday'' then Some ''ann likes pizza very much | ok''
             else Some ''the assistant said ok, which is not a fact''"
  have r0: "reachable after_pizza_turn"
    unfolding after_pizza_turn_def by (intro reachable.turn reachable.start)
  have r: "reachable after_two_turns"
    unfolding after_two_turns_def by (intro reachable.turn r0)
  have c: "map role (conversation_cache after_two_turns) = [User, Assistant, User, Assistant]"
    by code_simp
  have p: "snd (handleAIChat quiet_world msg2 after_pizza_turn) = Reply ''ok''"
    by code_simp
  have g: "map role (unprocessedMessages batch_world (ledger after_two_turns)
               (conversation_cache after_two_turns)) = [User]"
    by code_simp
  have t: "conversationText (unprocessedMessages batch_world (ledger after_two_turns)
               (conversation_cache after_two_turns)) = ''ann: dentist on friday''"
    by code_simp
  have b: "batch_reply batch_world ''ann: dentist on friday'' = Some ''ann likes pizza very much | ok''"
    by code_simp
  have a: "assistantMessage ''ok'' \<in> set (conversation_cache after_two_turns)"
    by code_simp
  have d: "map document (items (vstore (fst (consolidation batch_world after_two_turns)))) =
     [''likes pizza'', ''ann likes pizza very much'']"
    by code_simp
  have k: "map rowMessageId (ledger (fst (consolidation batch_world after_two_turns))) = [''1001'', ''1002'']"
    by code_simp
  have last: "last (conversation_cache after_two_turns) = assistantMessage ''ok''"
    using consolidation_never_gathers_assistant [OF r0 refl, of quiet_world msg2 "''ok''" batch_world] p
    unfolding after_two_turns_def by simp
  have same: "consolidation (batch_world\<lparr>batch_reply := ?f\<rparr>) after_two_turns =
      consolidation batch_world after_two_turns"
    using consolidation_never_gathers_assistant [OF r refl, of quiet_world msg2 "''ok''" batch_world] t b
    by simp
  have out: "assistantMessage ''ok'' \<notin> set (unprocessedMessages batch_world (ledger after_two_turns)
               (conversation_cache after_two_turns))"
    using consolidation_never_gathers_assistant [OF r refl, of quiet_world msg2 "''ok''" batch_world]
    by simp
  from c p last g t a out same d k show ?thesis by simp
qed

section \<open>Failures inside a turn\<close>





section \<open>The vector store\<close>

lemma initializeVectorDB_handle:
  "handle v \<or> init_ok w \<Longrightarrow> handle (initializeVectorDB w v)"
  by (auto simp: initializeVectorDB_def)

lemma initializeVectorDB_items [simp]: "items (initializeVectorDB w v) = items v"
  by (simp add: initializeVectorDB_def)

lemma initializeVectorDB_uuid_calls [simp]: "uuid_calls (initializeVectorDB w v) = uuid_calls v"
  by (simp add: initializeVectorDB_def)

lemma initializeVectorDB_twice [simp]:
  "initializeVectorDB w (initializeVectorDB w v) = initializeVectorDB w v"
  by (simp add: initializeVectorDB_def)

text \<open>The first answer of a query is a record of the collection at the least distance.\<close>

lemma collection_query_nearest:
  assumes "collection_query w q 1 xs = Inr ((x, d) # rest)"
  shows "x \<in> set xs \<and> d = distance w q (embedding x) \<and>
         (\<forall>y\<in>set xs. d \<le> distance w q (embedding y)) \<and> rest = []"
proof -
  let ?ys = "map (\<lambda>x. (x, distance w q (embedding x))) xs"
  let ?zs = "sort_key snd ?ys"
  from assms have t: "take 1 ?zs = (x, d) # rest"
    by (auto simp: collection_query_def split: if_splits)
  then obtain zs' where zs: "?zs = (x, d) # zs'" and rest: "rest = []"
    by (cases ?zs) auto
  have "sorted (map snd ?zs)"
    by (rule sorted_sort_key)
  then have le: "\<forall>p\<in>set ?zs. d \<le> snd p"
    unfolding zs by auto
  have s: "set ?zs = set ?ys"
    by simp
  have "(x, d) \<in> set ?ys"
    using zs s by (metis list.set_intros(1))
  then have m: "x \<in> set xs \<and> d = distance w q (embedding x)"
    by auto
  have "d \<le> distance w q (embedding y)" if "y \<in> set xs" for y
  proof -
    from that have "(y, distance w q (embedding y)) \<in> set ?zs"
      unfolding s by auto
    with le show ?thesis by fastforce
  qed
  with m rest show ?thesis by blast
qed

lemma checkDuplicate_near:
  assumes "handle v \<or> init_ok w" and "embed w factText = Some e"
    and "collection_query w e 1 (items v) = Inr ((x, d) # rest)"
  shows "checkDuplicate w factText threshold v =
           (initializeVectorDB w v,
            if d < threshold then IsDuplicate (itemId x) (document x) d else NotDuplicate)"
  using assms initializeVectorDB_handle [OF assms(1)]
  by (simp add: checkDuplicate_def Let_def generateEmbedding_def)

lemma storeFactSafely_enriched:
  assumes "handle v \<or> init_ok w" and "embed w factText = Some e"
    and "collection_query w e 1 (items v) = Inr ((x, d) # rest)"
    and "d < dedupThreshold w"
  shows "storeFactSafely w factText msgId ts cat v =
           (enrichExistingFact w (itemId x) factText msgId ts (initializeVectorDB w v),
            StoredEnriched (itemId x))"
  using assms(4) initializeVectorDB_handle [OF assms(1)]
    checkDuplicate_near [of "initializeVectorDB w v" w factText e x d rest "dedupThreshold w"]
    assms(2,3)
  by (simp add: storeFactSafely_def Let_def)

lemma storeFactSafely_new:
  assumes "handle v \<or> init_ok w" and "embed w factText = Some e"
    and "collection_query w e 1 (items v) = Inr ((x, d) # rest)"
    and "dedupThreshold w \<le> d" and "add_ok w"
    and "uuidv4 w (uuid_calls v) \<notin> set (map itemId (items v))"
  shows "storeFactSafely w factText msgId ts cat v =
           ((initializeVectorDB w v)\<lparr>
               uuid_calls := Suc (uuid_calls v),
               items := items v @
                 [\<lparr>itemId = uuidv4 w (uuid_calls v), document = factText, embedding = e,
                   metadata = no_metadata\<lparr>
                     source_message_id := Some msgId, md_timestamp := Some ts,
                     category := Some cat, processed_type := Some ''immediate'',
                     source_messages := Some msgId\<rparr>\<rparr>]\<rparr>,
            StoredNew (uuidv4 w (uuid_calls v)))"
  using assms(4,5,6) initializeVectorDB_handle [OF assms(1)]
    checkDuplicate_near [of "initializeVectorDB w v" w factText e x d rest "dedupThreshold w"]
    assms(2,3)
  by (simp add: storeFactSafely_def Let_def generateEmbedding_def collection_add_def)

text \<open>
  Claim C4. When the store is reachable, the text embeds, the query answers a nearest
  record \<open>x\<close> at distance \<open>d\<close> and the store accepts the write: \<open>d\<close> below
  \<open>dedupThreshold\<close> gives the outcome enriched with the id of \<open>x\<close>; \<open>d\<close> at or
  above it (the boundary included) adds a record under the fresh id and gives the outcome
  new with that id. The threshold is 0.15 when the environment sets none.
\<close>

theorem dedup_threshold_decides:
  "handle v \<or> init_ok w \<Longrightarrow> embed w factText = Some e \<Longrightarrow>
   collection_query w e 1 (items v) = Inr ((x, d) # rest) \<Longrightarrow>
   newId = uuidv4 w (uuid_calls v) \<Longrightarrow>
   x \<in> set (items v) \<and> d = distance w e (embedding x) \<and>
   (\<forall>y\<in>set (items v). d \<le> distance w e (embedding y)) \<and>
   (d < dedupThreshold w \<longrightarrow>
      snd (storeFactSafely w factText msgId ts cat v) = StoredEnriched (itemId x)) \<and>
   (dedupThreshold w \<le> d \<and> add_ok w \<and> newId \<notin> set (map itemId (items v)) \<longrightarrow>
      snd (storeFactSafely w factText msgId ts cat v) = StoredNew newId \<and>
      items (fst (storeFactSafely w factText msgId ts cat v)) =
        items v @
          [\<lparr>itemId = newId, document = factText, embedding = e,
            metadata = no_metadata\<lparr>
              source_message_id := Some msgId, md_timestamp := Some ts,
              category := Some cat, processed_type := Some ''immediate'',
              source_messages := Some msgId\<rparr>\<rparr>]) \<and>
   (DEDUP_SIMILARITY_THRESHOLD w = None \<longrightarrow> dedupThreshold w = 0.15)"
proof -
  assume h: "handle v \<or> init_ok w" and e: "embed w factText = Some e"
    and q: "collection_query w e 1 (items v) = Inr ((x, d) # rest)"
    and n: "newId = uuidv4 w (uuid_calls v)"
  note near = collection_query_nearest [OF q]
  have a: "snd (storeFactSafely w factText msgId ts cat v) = StoredEnriched (itemId x)"
    if "d < dedupThreshold w"
    using storeFactSafely_enriched [OF h e q that] by simp
  have b: "snd (storeFactSafely w factText msgId ts cat v) = StoredNew newId \<and>
      items (fst (storeFactSafely w factText msgId ts cat v)) =
        items v @
          [\<lparr>itemId = newId, document = factText, embedding = e,
            metadata = no_metadata\<lparr>
              source_message_id := Some msgId, md_timestamp := Some ts,
              category := Some cat, processed_type := Some ''immediate'',
              source_messages := Some msgId\<rparr>\<rparr>]"
    if "dedupThreshold w \<le> d" "add_ok w" "newId \<notin> set (map itemId (items v))"
    using storeFactSafely_new [OF h e q that(1,2) that(3) [unfolded n]] n by simp
  have c: "DEDUP_SIMILARITY_THRESHOLD w = None \<longrightarrow> dedupThreshold w = 0.15"
    by (simp add: dedupThreshold_def)
  from near a b c show ?thesis by blast
qed

theorem dedup_threshold_decides_witness:
  "dedupThreshold quiet_world = 0.15 \<and>
   collection_query quiet_world [0.08] 1 (items (vstore after_pizza_turn)) =
     Inr [(hd (items (vstore after_pizza_turn)), 0.08)] \<and>
   snd (storeFactSafely quiet_world ''really likes pizza a lot'' ''1003''
          ''2024-05-02T09:00:00.000Z'' ''fact'' (vstore after_pizza_turn)) = StoredEnriched ''uuid-'' \<and>
   collection_query quiet_world [0.15] 1 (items (vstore after_pizza_turn)) =
     Inr [(hd (items (vstore after_pizza_turn)), 0.15)] \<and>
   snd (storeFactSafely quiet_world ''likes pasta'' ''1003''
          ''2024-05-02T09:00:00.000Z'' ''fact'' (vstore after_pizza_turn)) = StoredNew ''uuid-x'' \<and>
   map document (items (fst (storeFactSafely quiet_world ''likes pasta'' ''1003''
          ''2024-05-02T09:00:00.000Z'' ''fact'' (vstore after_pizza_turn)))) =
     [''likes pizza'', ''likes pasta'']"
proof -
  have h: "handle (vstore after_pizza_turn) \<or> init_ok quiet_world" by code_simp
  have e1: "embed quiet_world ''really likes pizza a lot'' = Some [0.08]" by code_simp
  have e2: "embed quiet_world ''likes pasta'' = Some [0.15]" by code_simp
  have q1: "collection_query quiet_world [0.08] 1 (items (vstore after_pizza_turn)) =
     Inr ((hd (items (vstore after_pizza_turn)), 0.08) # [])"
    by code_simp
  have q2: "collection_query quiet_world [0.15] 1 (items (vstore after_pizza_turn)) =
     Inr ((hd (items (vstore after_pizza_turn)), 0.15) # [])"
    by code_simp
  have t: "dedupThreshold quiet_world = 0.15" by code_simp
  have i: "itemId (hd (items (vstore after_pizza_turn))) = ''uuid-''" by code_simp
  have u: "uuidv4 quiet_world (uuid_calls (vstore after_pizza_turn)) = ''uuid-x''" by code_simp
  have f: "add_ok quiet_world \<and> ''uuid-x'' \<notin> set (map itemId (items (vstore after_pizza_turn)))"
    by code_simp
  have d: "map document (items (vstore after_pizza_turn)) = [''likes pizza'']" by code_simp
  show ?thesis
    using dedup_threshold_decides [OF h e1 q1 refl, of "''1003''" "''2024-05-02T09:00:00.000Z''" "''fact''"]
      dedup_threshold_decides [OF h e2 q2 refl, of "''1003''" "''2024-05-02T09:00:00.000Z''" "''fact''"]
      q1 q2 f d
    unfolding t i u
    by simp
qed

lemma find_by_id:
  "x \<in> set xs \<Longrightarrow> distinct (map itemId xs) \<Longrightarrow> find (\<lambda>y. itemId y = itemId x) xs = Some x"
  by (induction xs) (auto simp: rev_image_eqI)

lemma enrichExistingFact_frame:
  "map itemId (items (enrichExistingFact w fid txt mid ts v)) = map itemId (items v) \<and>
   map document (items (enrichExistingFact w fid txt mid ts v)) = map document (items v) \<and>
   map embedding (items (enrichExistingFact w fid txt mid ts v)) = map embedding (items v)"
  by (auto simp: enrichExistingFact_def collection_get_def collection_update_def Let_def)

lemma enrichExistingFact_items:
  assumes "handle v" and "get_ok w" and "update_ok w"
    and "x \<in> set (items v)" and "distinct (map itemId (items v))"
  shows "items (enrichExistingFact w (itemId x) txt mid ts v) =
           map (\<lambda>y. if itemId y = itemId x
                    then y\<lparr>metadata := enrich_metadata (metadata x) mid ts\<rparr> else y) (items v)"
  using assms find_by_id [OF assms(4,5)]
  by (simp add: enrichExistingFact_def collection_get_def collection_update_def Let_def)

text \<open>
  Claim C6. When the fact-store operation takes the duplicate branch, the ids, the
  documents and the embeddings of the collection are as before, whatever happens to the
  update; and when the read and the update are accepted, only the metadata of the existing
  record \<open>x\<close> changes: \<open>last_updated\<close> is the given timestamp, \<open>enriched\<close> is true, and
  \<open>source_messages\<close> is the old value, a comma and the new message id (the new id alone
  when there was no old value); every other key keeps its value.
\<close>

theorem enrichment_changes_metadata_only:
  "handle v \<or> init_ok w \<Longrightarrow> embed w factText = Some e \<Longrightarrow>
   collection_query w e 1 (items v) = Inr ((x, d) # rest) \<Longrightarrow>
   d < dedupThreshold w \<Longrightarrow>
   distinct (map itemId (items v)) \<Longrightarrow>
   v' = fst (storeFactSafely w factText msgId ts cat v) \<Longrightarrow>
   snd (storeFactSafely w factText msgId ts cat v) = StoredEnriched (itemId x) \<and>
   map itemId (items v') = map itemId (items v) \<and>
   map document (items v') = map document (items v) \<and>
   map embedding (items v') = map embedding (items v) \<and>
   (get_ok w \<and> update_ok w \<longrightarrow>
      items v' =
        map (\<lambda>y. if itemId y = itemId x
                 then y\<lparr>metadata := (metadata x)\<lparr>
                        last_updated := Some ts,
                        source_messages :=
                          Some (case source_messages (metadata x) of
                                  None \<Rightarrow> msgId
                                | Some old \<Rightarrow> if old = [] then msgId else old @ '','' @ msgId),
                        enriched := Some True\<rparr>\<rparr>
                 else y) (items v))"
proof -
  assume h: "handle v \<or> init_ok w" and e: "embed w factText = Some e"
    and q: "collection_query w e 1 (items v) = Inr ((x, d) # rest)"
    and lt: "d < dedupThreshold w"
    and dist: "distinct (map itemId (items v))"
    and v': "v' = fst (storeFactSafely w factText msgId ts cat v)"
  let ?v1 = "initializeVectorDB w v"
  have run: "storeFactSafely w factText msgId ts cat v =
      (enrichExistingFact w (itemId x) factText msgId ts ?v1, StoredEnriched (itemId x))"
    by (rule storeFactSafely_enriched [OF h e q lt])
  then have v'': "v' = enrichExistingFact w (itemId x) factText msgId ts ?v1"
    using v' by simp
  have frame: "map itemId (items v') = map itemId (items v) \<and>
      map document (items v') = map document (items v) \<and>
      map embedding (items v') = map embedding (items v)"
    unfolding v'' using enrichExistingFact_frame [of w "itemId x" factText msgId ts ?v1] by simp
  have x: "x \<in> set (items ?v1)"
    using collection_query_nearest [OF q] by simp
  have md: "items v' =
        map (\<lambda>y. if itemId y = itemId x
                 then y\<lparr>metadata := enrich_metadata (metadata x) msgId ts\<rparr>
                 else y) (items v)"
    if "get_ok w" "update_ok w"
    unfolding v''
    using enrichExistingFact_items [OF initializeVectorDB_handle [OF h] that x, of factText msgId ts] dist
    by simp
  show ?thesis
    using run frame md by (simp add: enrich_metadata_def)
qed

theorem enrichment_changes_metadata_only_witness:
  "items (vstore after_pizza_turn) =
     [\<lparr>itemId = ''uuid-'', document = ''likes pizza'', embedding = [0],
       metadata = no_metadata\<lparr>
         source_message_id := Some ''1001'', md_timestamp := Some ''2024-05-01T10:00:00.000Z'',
         category := Some ''fact'', processed_type := Some ''immediate'',
         source_messages := Some ''1001''\<rparr>\<rparr>] \<and>
   items (fst (storeFactSafely quiet_world ''really likes pizza a lot'' ''1003''
          ''2024-05-02T09:00:00.000Z'' ''fact'' (vstore after_pizza_turn))) =
     [\<lparr>itemId = ''uuid-'', document = ''likes pizza'', embedding = [0],
       metadata = no_metadata\<lparr>
         source_message_id := Some ''1001'', md_timestamp := Some ''2024-05-01T10:00:00.000Z'',
         category := Some ''fact'', processed_type := Some ''immediate'',
         source_messages := Some ''1001,1003'',
         last_updated := Some ''2024-05-02T09:00:00.000Z'', enriched := Some True\<rparr>\<rparr>]"
proof -
  have h: "handle (vstore after_pizza_turn) \<or> init_ok quiet_world" by code_simp
  have e1: "embed quiet_world ''really likes pizza a lot'' = Some [0.08]" by code_simp
  have q1: "collection_query quiet_world [0.08] 1 (items (vstore after_pizza_turn)) =
     Inr ((hd (items (vstore after_pizza_turn)), 0.08) # [])"
    by code_simp
  have lt: "0.08 < dedupThreshold quiet_world" by code_simp
  have di: "distinct (map itemId (items (vstore after_pizza_turn)))" by code_simp
  have ok: "get_ok quiet_world \<and> update_ok quiet_world" by code_simp
  have its: "items (vstore after_pizza_turn) =
     [\<lparr>itemId = ''uuid-'', document = ''likes pizza'', embedding = [0],
       metadata = no_metadata\<lparr>
         source_message_id := Some ''1001'', md_timestamp := Some ''2024-05-01T10:00:00.000Z'',
         category := Some ''fact'', processed_type := Some ''immediate'',
         source_messages := Some ''1001''\<rparr>\<rparr>]"
    by code_simp
  show ?thesis
    using enrichment_changes_metadata_only [OF h e1 q1 lt di refl,
        of "''1003''" "''2024-05-02T09:00:00.000Z''" "''fact''"] ok
    by (simp add: its no_metadata_def)
qed

section \<open>The batch store\<close>

lemma storeMemory_appends:
  assumes "handle v \<or> init_ok w" and "embed w narr = Some e" and "add_ok w"
    and "uuidv4 w (uuid_calls v) \<notin> set (map itemId (items v))"
  shows "storeMemory w narr md v =
           (initializeVectorDB w v)\<lparr>
              uuid_calls := Suc (uuid_calls v),
              items := items v @
                [\<lparr>itemId = uuidv4 w (uuid_calls v), document = narr, embedding = e,
                  metadata = md\<lparr>md_timestamp := Some (now w),
                                processed_type := Some ''batch''\<rparr>\<rparr>]\<rparr>"
  using assms(2,3,4) initializeVectorDB_handle [OF assms(1)]
  by (simp add: storeMemory_def Let_def generateEmbedding_def collection_add_def)

text \<open>The loop of the run over the chunks: one record per chunk, in order.\<close>

lemma store_chunks_documents:
  assumes "handle v \<or> init_ok w" and "add_ok w" and "inj (uuidv4 w)"
    and "\<forall>c\<in>set cs. embed w (narrative c) \<noteq> None"
    and "\<forall>i. uuidv4 w (uuid_calls v + i) \<notin> set (map itemId (items v))"
  shows "map document (items (store_chunks w cs v)) = map document (items v) @ map narrative cs"
  using assms
proof (induction cs arbitrary: v)
  case Nil
  then show ?case by simp
next
  case (Cons c cs)
  from Cons.prems(4) obtain e where e: "embed w (narrative c) = Some e"
    by auto
  have fresh0: "uuidv4 w (uuid_calls v) \<notin> set (map itemId (items v))"
    using Cons.prems(5) [rule_format, of 0] by simp
  let ?v1 = "storeMemory w (narrative c) (chunk_metadata c) v"
  note step = storeMemory_appends [OF Cons.prems(1) e Cons.prems(2) fresh0, of "chunk_metadata c"]
  have h1: "handle ?v1 \<or> init_ok w"
    using initializeVectorDB_handle [OF Cons.prems(1)] by (simp add: step)
  have u1: "uuid_calls ?v1 = Suc (uuid_calls v)"
    by (simp add: step)
  have i1: "items ?v1 = items v @
                [\<lparr>itemId = uuidv4 w (uuid_calls v), document = narrative c, embedding = e,
                  metadata = (chunk_metadata c)\<lparr>md_timestamp := Some (now w),
                                processed_type := Some ''batch''\<rparr>\<rparr>]"
    by (simp add: step)
  have fresh1: "\<forall>i. uuidv4 w (uuid_calls ?v1 + i) \<notin> set (map itemId (items ?v1))"
  proof
    fix i
    have "uuidv4 w (Suc (uuid_calls v + i)) \<notin> set (map itemId (items v))"
      using Cons.prems(5) [rule_format, of "Suc i"] by simp
    moreover have "uuidv4 w (Suc (uuid_calls v + i)) \<noteq> uuidv4 w (uuid_calls v)"
      using Cons.prems(3) by (auto dest: injD)
    ultimately show "uuidv4 w (uuid_calls ?v1 + i) \<notin> set (map itemId (items ?v1))"
      unfolding u1 i1 by simp
  qed
  have "map document (items (store_chunks w cs ?v1)) = map document (items ?v1) @ map narrative cs"
    using Cons.IH [OF h1 Cons.prems(2,3) _ fresh1] Cons.prems(4) by simp
  then show ?case
    by (simp add: i1)
qed

text \<open>
  Claim C9. \<open>storeMemory\<close> makes no duplicate check: when the store is reachable, the
  chunk embeds and the store accepts the write, it appends a record under the fresh id,
  with the chunk as document, the given metadata, the clock as \<open>timestamp\<close> and
  \<open>processed_type = batch\<close>, whatever the distances to the existing records are, also
  when \<open>checkDuplicate\<close> on the same text reports a duplicate; and the loop of a run
  adds one record per surviving chunk.
\<close>

theorem batch_store_skips_dedup:
  "handle v \<or> init_ok w \<Longrightarrow> embed w narr = Some e \<Longrightarrow> add_ok w \<Longrightarrow>
   newId = uuidv4 w (uuid_calls v) \<Longrightarrow>
   newId \<notin> set (map itemId (items v)) \<Longrightarrow>
   items (storeMemory w narr md v) =
     items v @
       [\<lparr>itemId = newId, document = narr, embedding = e,
         metadata = md\<lparr>md_timestamp := Some (now w), processed_type := Some ''batch''\<rparr>\<rparr>] \<and>
   (snd (checkDuplicate w narr (dedupThreshold w) v) \<noteq> NotDuplicate \<longrightarrow>
      length (items (storeMemory w narr md v)) = Suc (length (items v))) \<and>
   (inj (uuidv4 w) \<and> (\<forall>c\<in>set cs. embed w (narrative c) \<noteq> None) \<and>
    (\<forall>i. uuidv4 w (uuid_calls v + i) \<notin> set (map itemId (items v))) \<longrightarrow>
      map document (items (store_chunks w cs v)) = map document (items v) @ map narrative cs)"
proof -
  assume h: "handle v \<or> init_ok w" and e: "embed w narr = Some e" and a: "add_ok w"
    and n: "newId = uuidv4 w (uuid_calls v)"
    and f: "newId \<notin> set (map itemId (items v))"
  have one: "items (storeMemory w narr md v) =
     items v @
       [\<lparr>itemId = newId, document = narr, embedding = e,
         metadata = md\<lparr>md_timestamp := Some (now w), processed_type := Some ''batch''\<rparr>\<rparr>]"
    using storeMemory_appends [OF h e a f [unfolded n], of md] n by simp
  have many: "map document (items (store_chunks w cs v)) = map document (items v) @ map narrative cs"
    if "inj (uuidv4 w)" "\<forall>c\<in>set cs. embed w (narrative c) \<noteq> None"
      "\<forall>i. uuidv4 w (uuid_calls v + i) \<notin> set (map itemId (items v))"
    using store_chunks_documents [OF h a that] .
  from one many show ?thesis by simp
qed

theorem batch_store_skips_dedup_witness:
  "snd (checkDuplicate quiet_world ''really likes pizza a lot'' (dedupThreshold quiet_world)
          (vstore after_pizza_turn)) = IsDuplicate ''uuid-'' ''likes pizza'' 0.08 \<and>
   items (storeMemory quiet_world ''really likes pizza a lot''
            (no_metadata\<lparr>message_count := Some 1, created_at := Some ''2024-05-01T23:00:00.000Z''\<rparr>)
            (vstore after_pizza_turn)) =
     items (vstore after_pizza_turn) @
       [\<lparr>itemId = ''uuid-x'', document = ''really likes pizza a lot'', embedding = [0.08],
         metadata = no_metadata\<lparr>message_count := Some 1,
                      created_at := Some ''2024-05-01T23:00:00.000Z'',
                      md_timestamp := Some ''2024-05-01T10:00:00.000Z'',
                      processed_type := Some ''batch''\<rparr>\<rparr>] \<and>
   map document (items (store_chunks quiet_world
       [\<lparr>narrative = ''really likes pizza a lot'', chunk_metadata = no_metadata\<rparr>,
        \<lparr>narrative = ''likes pizza'', chunk_metadata = no_metadata\<rparr>]
       (vstore after_pizza_turn))) =
     [''likes pizza'', ''really likes pizza a lot'', ''likes pizza'']"
proof -
  have h: "handle (vstore after_pizza_turn) \<or> init_ok quiet_world" by code_simp
  have e: "embed quiet_world ''really likes pizza a lot'' = Some [0.08]" by code_simp
  have a: "add_ok quiet_world" by code_simp
  have u: "uuidv4 quiet_world (uuid_calls (vstore after_pizza_turn)) = ''uuid-x''" by code_simp
  have f: "uuidv4 quiet_world (uuid_calls (vstore after_pizza_turn))
             \<notin> set (map itemId (items (vstore after_pizza_turn)))"
    by code_simp
  have d: "snd (checkDuplicate quiet_world ''really likes pizza a lot'' (dedupThreshold quiet_world)
          (vstore after_pizza_turn)) = IsDuplicate ''uuid-'' ''likes pizza'' 0.08"
    by code_simp
  have n: "now quiet_world = ''2024-05-01T10:00:00.000Z''" by code_simp
  have inj: "inj (uuidv4 quiet_world)"
  proof (rule injI)
    fix a b
    assume "uuidv4 quiet_world a = uuidv4 quiet_world b"
    then have "length (replicate a (CHR ''x'')) = length (replicate b (CHR ''x''))"
      by (simp add: quiet_world_def)
    then show "a = b" by simp
  qed
  have em: "\<forall>c\<in>set [\<lparr>narrative = ''really likes pizza a lot'', chunk_metadata = no_metadata\<rparr>,
        \<lparr>narrative = ''likes pizza'', chunk_metadata = no_metadata\<rparr>].
        embed quiet_world (narrative c) \<noteq> None"
    by (simp add: quiet_world_def pizza_embed_def)
  have c: "uuid_calls (vstore after_pizza_turn) = 1"
    and ids: "map itemId (items (vstore after_pizza_turn)) = [''uuid-'']"
    and docs: "map document (items (vstore after_pizza_turn)) = [''likes pizza'']"
    by code_simp+
  have fr: "\<forall>i. uuidv4 quiet_world (uuid_calls (vstore after_pizza_turn) + i)
       \<notin> set (map itemId (items (vstore after_pizza_turn)))"
    unfolding c ids by (simp add: quiet_world_def)
  show ?thesis
    using batch_store_skips_dedup [OF h e a refl f,
        of "no_metadata\<lparr>message_count := Some 1, created_at := Some ''2024-05-01T23:00:00.000Z''\<rparr>"
           "[\<lparr>narrative = ''really likes pizza a lot'', chunk_metadata = no_metadata\<rparr>,
             \<lparr>narrative = ''likes pizza'', chunk_metadata = no_metadata\<rparr>]"]
      d inj em fr
    unfolding u n docs
    by simp
qed

section \<open>The ids of the collection\<close>

text \<open>
  The ids of the collection are distinct in every reachable state: the hypothesis of the
  enrichment property is an invariant of the process.
\<close>

lemma collection_add_distinct:
  "collection_add w x xs = Inr ys \<Longrightarrow> distinct (map itemId xs) \<Longrightarrow> distinct (map itemId ys)"
  by (auto simp: collection_add_def split: if_splits)

lemma checkDuplicate_state: "fst (checkDuplicate w txt th v) = initializeVectorDB w v"
  by (auto simp: checkDuplicate_def Let_def split: sum.splits list.splits prod.splits)

lemma storeFactSafely_distinct:
  assumes "distinct (map itemId (items v))"
  shows "distinct (map itemId (items (fst (storeFactSafely w txt mid ts cat v))))"
proof -
  have c: "\<And>v2 dup. checkDuplicate w txt (dedupThreshold w) (initializeVectorDB w v) = (v2, dup)
      \<Longrightarrow> v2 = initializeVectorDB w v"
    using checkDuplicate_state [of w "txt" "dedupThreshold w" "initializeVectorDB w v"] by simp
  show ?thesis
    using assms enrichExistingFact_frame
    by (auto simp: storeFactSafely_def Let_def
        dest!: c dest: collection_add_distinct
        split: prod.splits duplicate.splits sum.splits)
qed

lemma storeMemory_distinct:
  "distinct (map itemId (items v)) \<Longrightarrow> distinct (map itemId (items (storeMemory w narr md v)))"
  by (auto simp: storeMemory_def Let_def dest: collection_add_distinct split: sum.splits)

lemma store_chunks_distinct:
  "distinct (map itemId (items v)) \<Longrightarrow> distinct (map itemId (items (store_chunks w cs v)))"
  by (induction cs arbitrary: v) (auto simp: storeMemory_distinct)

lemma store_facts_distinct:
  "distinct (map itemId (items (vstore s)))
     \<Longrightarrow> distinct (map itemId (items (vstore (fst (store_facts w m input fs s)))))"
  by (induction w m input fs s rule: store_facts.induct)
     (auto simp: storeFactSafely_distinct split: sum.splits)

lemma immediate_storage_distinct_ids:
  assumes "distinct (map itemId (items (vstore s)))"
  shows "distinct (map itemId (items (vstore (fst (immediate_storage w m input s)))))"
proof -
  have f: "\<And>fs s1 e. store_facts w m input fs s = (s1, e)
      \<Longrightarrow> distinct (map itemId (items (vstore s1)))"
    using store_facts_distinct [OF assms] by (metis fst_conv)
  show ?thesis
    using assms
    by (auto simp: immediate_storage_def Let_def dest!: f
        split: prod.splits option.splits sum.splits extraction.splits)
qed

lemma searchMemories_items: "items (fst (searchMemories w q n v)) = items v"
  by (auto simp: searchMemories_def Let_def split: sum.splits)

lemma context_retrieval_items:
  "items (vstore (fst (context_retrieval w input s))) = items (vstore s)"
  by (simp add: context_retrieval_def Let_def searchMemories_items)

lemma handleAIChat_distinct_ids:
  assumes "distinct (map itemId (items (vstore s)))"
  shows "distinct (map itemId (items (vstore (fst (handleAIChat w m s)))))"
proof -
  let ?s0 = "s\<lparr>conversation_cache := conversation_cache s @ [userMessage w m (turn_input m)]\<rparr>"
  have i: "\<And>s1 e. immediate_storage w m (turn_input m) ?s0 = (s1, e)
      \<Longrightarrow> distinct (map itemId (items (vstore s1)))"
    using immediate_storage_distinct_ids [of ?s0 w m "turn_input m"] assms
    by (metis fst_conv state.select_convs(4) state.surjective state.update_convs(1))
  have c: "\<And>s1 s2 ms. context_retrieval w (turn_input m) s1 = (s2, ms)
      \<Longrightarrow> items (vstore s2) = items (vstore s1)"
    using context_retrieval_items by (metis fst_conv)
  show ?thesis
    using assms
    by (auto simp: handleAIChat_def Let_def dest!: i c split: prod.splits option.splits)
qed

lemma consolidation_distinct_ids:
  "distinct (map itemId (items (vstore s)))
     \<Longrightarrow> distinct (map itemId (items (vstore (fst (consolidation w s)))))"
  by (auto simp: consolidation_def getConversationCache_def clearConversationCache_def Let_def
      store_chunks_distinct split: prod.splits option.splits)

lemma reachable_distinct_ids: "reachable s \<Longrightarrow> distinct (map itemId (items (vstore s)))"
  by (induction rule: reachable.induct)
     (simp_all add: initial_state_def handleAIChat_distinct_ids consolidation_distinct_ids)

end
